theory Spec2Isabelle
  imports Complex_Main
begin

section \<open>Conventions of the embedding\<close>

text \<open>
  The Python sources compute with pandas columns of IEEE doubles.  The embedding uses exact
  rationals (\<^typ>\<open>rat\<close>) for every finite number and \<^typ>\<open>rat option\<close> where a
  column can hold the missing marker: \<^term>\<open>None :: rat option\<close> is pandas' NaN (or
  Python's \<open>None\<close>).  Rounding error of the doubles is not represented.

  A date is an integer that orders chronologically.  Where the source adds a
  \<open>timedelta\<close> (the walk-forward loop) the integer is a day count; in the ratings loader,
  which only compares dates, the date \<open>yyyy-mm-dd\<close> is written as the number
  \<open>yyyymmdd\<close>.

  Exceptions of the source are values of \<open>error\<close>.  \<open>NonFinite\<close> marks a division by
  zero inside the Kelly columns, where numpy yields \<open>inf\<close> or \<open>nan\<close> instead of raising
  and the table of the model has no cell for such a value.
\<close>

datatype error =
  ValueError | KeyError | FileNotFoundError | ZeroDivisionError | NonFinite | EstimatorError

record dated =
  date :: int

text \<open>Arithmetic and comparison of doubles that may be NaN.\<close>

definition nan_add :: "rat option \<Rightarrow> rat option \<Rightarrow> rat option" where
  "nan_add a b = (case (a, b) of (Some x, Some y) \<Rightarrow> Some (x + y) | _ \<Rightarrow> None)"

definition nan_sub :: "rat option \<Rightarrow> rat option \<Rightarrow> rat option" where
  "nan_sub a b = (case (a, b) of (Some x, Some y) \<Rightarrow> Some (x - y) | _ \<Rightarrow> None)"

definition nan_gt :: "rat option \<Rightarrow> rat option \<Rightarrow> bool" where
  "nan_gt a b = (case (a, b) of (Some x, Some y) \<Rightarrow> x > y | _ \<Rightarrow> False)"

definition nan_ge :: "rat option \<Rightarrow> rat option \<Rightarrow> bool" where
  "nan_ge a b = (case (a, b) of (Some x, Some y) \<Rightarrow> x \<ge> y | _ \<Rightarrow> False)"

section \<open>Odds-band policy (ml/experiments\_ncaabb/backtest\_odds\_aware\_policy.py)\<close>

text \<open>
  \<open>decide_min_edge_for_odds\<close>: the \<open>if\<close> chain of the source in its order;
  \<^term>\<open>None :: rat option\<close> is the source's \<open>None\<close> (skip the band).
\<close>

definition decide_min_edge_for_odds :: "rat \<Rightarrow> bool \<Rightarrow> rat option" where
  "decide_min_edge_for_odds american_odds is_favorite =
     (if is_favorite then Some (15 / 100)
      else if 100 \<le> american_odds \<and> american_odds < 120 then Some (15 / 100)
      else if 120 \<le> american_odds \<and> american_odds < 140 then Some (15 / 100)
      else if 140 \<le> american_odds \<and> american_odds < 160 then None
      else if 160 \<le> american_odds \<and> american_odds < 180 then Some (13 / 100)
      else if 180 \<le> american_odds \<and> american_odds < 200 then None
      else if 200 \<le> american_odds \<and> american_odds < 250 then Some 0
      else if 250 \<le> american_odds \<and> american_odds < 400 then None
      else if american_odds \<ge> 400 then None
      else Some (15 / 100))"

text \<open>One row of the edges CSV (one game) and one row of the bet-level table.\<close>

record edges_row =
  home_ml :: rat
  away_ml :: rat
  edge_home :: rat
  edge_away :: rat
  home_won :: bool

datatype bet_side = HomeSide | AwaySide

record bet =
  bet_side :: bet_side
  american_odds :: rat
  edge :: rat
  outcome :: nat
  is_favorite :: bool

text \<open>
  \<open>load_edges_data\<close> after the CSV is read: two bet opportunities per game, home first,
  and the flag \<open>is_favorite = american_odds < 0\<close> added to every row.
\<close>

definition home_bet :: "edges_row \<Rightarrow> bet" where
  "home_bet row = \<lparr>bet_side = HomeSide, american_odds = home_ml row, edge = edge_home row,
     outcome = (if home_won row then 1 else 0), is_favorite = (home_ml row < 0)\<rparr>"

definition away_bet :: "edges_row \<Rightarrow> bet" where
  "away_bet row = \<lparr>bet_side = AwaySide, american_odds = away_ml row, edge = edge_away row,
     outcome = (if home_won row then 0 else 1), is_favorite = (away_ml row < 0)\<rparr>"

definition load_edges_data :: "edges_row list \<Rightarrow> bet list" where
  "load_edges_data df = concat (map (\<lambda>row. [home_bet row, away_bet row]) df)"

record policy_stats =
  total_candidates :: nat
  filtered_longdogs :: nat
  filtered_death_valleys :: nat
  filtered_insufficient_edge :: nat
  qualified_bets :: nat

text \<open>
  The body of the loop of \<open>apply_odds_aware_policy\<close>: the state is the list of accepted
  rows (in order) and the counters.  The longdog test comes first and \<open>continue\<close>s, so
  \<open>decide_min_edge_for_odds\<close> is not called for such a row.
\<close>

definition policy_step :: "bet list \<times> policy_stats \<Rightarrow> bet \<Rightarrow> bet list \<times> policy_stats" where
  "policy_step st row =
     (let filtered_bets = fst st; results = snd st in
      if american_odds row \<ge> 400
      then (filtered_bets, results\<lparr>filtered_longdogs := filtered_longdogs results + 1\<rparr>)
      else (case decide_min_edge_for_odds (american_odds row) (is_favorite row) of
              None \<Rightarrow>
                (filtered_bets,
                 results\<lparr>filtered_death_valleys := filtered_death_valleys results + 1\<rparr>)
            | Some required_edge \<Rightarrow>
                if edge row \<ge> required_edge
                then (filtered_bets @ [row],
                      results\<lparr>qualified_bets := qualified_bets results + 1\<rparr>)
                else (filtered_bets,
                      results\<lparr>filtered_insufficient_edge :=
                                 filtered_insufficient_edge results + 1\<rparr>)))"

definition apply_odds_aware_policy :: "bet list \<Rightarrow> bet list \<times> policy_stats" where
  "apply_odds_aware_policy df =
     foldl policy_step
       ([], \<lparr>total_candidates = length df, filtered_longdogs = 0, filtered_death_valleys = 0,
             filtered_insufficient_edge = 0, qualified_bets = 0\<rparr>) df"

text \<open>Whether the loop body appends a row to the accepted list.\<close>

definition accepted :: "bet \<Rightarrow> bool" where
  "accepted row \<longleftrightarrow>
     \<not> american_odds row \<ge> 400 \<and>
     (case decide_min_edge_for_odds (american_odds row) (is_favorite row) of
        None \<Rightarrow> False | Some required_edge \<Rightarrow> edge row \<ge> required_edge)"

section \<open>Rolling statistics (ml/features\_inseason\_stats.py)\<close>

text \<open>
  One game seen from one team.  A cell of a numeric column is \<^term>\<open>None :: rat option\<close>
  when it is NaN: \<open>build_inseason_stats\<close> passes on the games that have no score yet.
  \<open>fga\<close> and \<open>fta\<close> are also \<^term>\<open>None :: rat option\<close> when the column is absent
  (\<open>row.get('fga', np.nan)\<close>); \<open>oreb\<close> and \<open>tov\<close> are \<^term>\<open>Some 0 :: rat option\<close>
  when the column is absent (\<open>row.get('oreb', 0)\<close>).
\<close>

record team_game = dated +
  points_for :: "rat option"
  points_against :: "rat option"
  won :: "rat option"
  is_home :: bool
  fga :: "rat option"
  fta :: "rat option"
  oreb :: "rat option"
  tov :: "rat option"

definition estimate_possessions ::
  "rat option \<Rightarrow> rat option \<Rightarrow> rat option \<Rightarrow> rat option \<Rightarrow> rat option \<Rightarrow> rat option" where
  "estimate_possessions points fga' fta' oreb' tov' =
     (case (fga', fta') of
        (Some a, Some t) \<Rightarrow> nan_add (nan_sub (Some (a + (44 / 100) * t)) oreb') tov'
      | _ \<Rightarrow> Some 70)"

definition possessions :: "'a team_game_scheme \<Rightarrow> rat option" where
  "possessions g = estimate_possessions (points_for g) (fga g) (fta g) (oreb g) (tov g)"

text \<open>
  A double of a derived column: a finite number, an infinity or NaN.  The division of two
  cells is the only operation of the source that leaves the finite numbers: a number
  divided by zero is an infinity of its sign, and zero divided by zero is NaN.
\<close>

datatype float = Finite rat | PosInf | NegInf | NaN

fun of_cell :: "rat option \<Rightarrow> float" where
  "of_cell (Some x) = Finite x"
| "of_cell None = NaN"

fun cell_div :: "rat option \<Rightarrow> rat option \<Rightarrow> float" where
  "cell_div (Some x) (Some y) =
     (if y \<noteq> 0 then Finite (x / y)
      else if x > 0 then PosInf else if x < 0 then NegInf else NaN)"
| "cell_div a b = NaN"

fun times_100 :: "float \<Rightarrow> float" where
  "times_100 (Finite x) = Finite (x * 100)"
| "times_100 v = v"

text \<open>The per-game metric columns (lines 71 to 74) and the \<open>won\<close> column.\<close>

definition ORtg :: "'a team_game_scheme \<Rightarrow> float" where
  "ORtg g = times_100 (cell_div (points_for g) (possessions g))"

definition DRtg :: "'a team_game_scheme \<Rightarrow> float" where
  "DRtg g = times_100 (cell_div (points_against g) (possessions g))"

definition Pace :: "'a team_game_scheme \<Rightarrow> float" where
  "Pace g = of_cell (possessions g)"

definition MoV :: "'a team_game_scheme \<Rightarrow> float" where
  "MoV g = of_cell (nan_sub (points_for g) (points_against g))"

definition won_column :: "'a team_game_scheme \<Rightarrow> float" where
  "won_column g = of_cell (won g)"

text \<open>
  pandas \<open>Series.shift(1)\<close>: every value moves one position down, the first becomes NaN
  and the last is dropped.
\<close>

definition shift1 :: "float list \<Rightarrow> float list" where
  "shift1 xs = (if xs = [] then [] else NaN # butlast xs)"

fun dropna :: "rat option list \<Rightarrow> rat list" where
  "dropna [] = []"
| "dropna (None # xs) = dropna xs"
| "dropna (Some x # xs) = x # dropna xs"

text \<open>
  The values a rolling aggregation counts: \<open>rolling\<close> first replaces the infinities by
  NaN, and the aggregation then skips every NaN.
\<close>

fun prep_values :: "float \<Rightarrow> rat option" where
  "prep_values (Finite x) = Some x"
| "prep_values v = None"

definition finite_values :: "float list \<Rightarrow> rat list" where
  "finite_values xs = dropna (map prep_values xs)"

text \<open>
  pandas \<open>Series.rolling(window, min_periods).mean()\<close>: the window at position \<open>i\<close> is
  the last \<open>window\<close> positions up to and including \<open>i\<close>; the result is the mean of the
  values counted there when there are at least \<open>min_periods\<close> of them, and NaN
  otherwise (so a cell of the result is a finite number or NaN).
\<close>

definition rolling_mean :: "nat \<Rightarrow> nat \<Rightarrow> float list \<Rightarrow> rat option list" where
  "rolling_mean window min_periods xs =
     map (\<lambda>i. let obs = finite_values (drop (Suc i - window) (take (Suc i) xs))
               in if obs \<noteq> [] \<and> length obs \<ge> min_periods
                  then Some (sum_list obs / of_nat (length obs)) else None)
         [0 ..< length xs]"

text \<open>The rolling columns, named as the source's f-strings name them.\<close>

datatype column = ORtg_L int | DRtg_L int | Pace_L int | MoV_L int | WinPct_L int

fun column_window :: "column \<Rightarrow> int" where
  "column_window (ORtg_L w) = w"
| "column_window (DRtg_L w) = w"
| "column_window (Pace_L w) = w"
| "column_window (MoV_L w) = w"
| "column_window (WinPct_L w) = w"

fun column_metric :: "column \<Rightarrow> team_game \<Rightarrow> float" where
  "column_metric (ORtg_L w) = ORtg"
| "column_metric (DRtg_L w) = DRtg"
| "column_metric (Pace_L w) = Pace"
| "column_metric (MoV_L w) = MoV"
| "column_metric (WinPct_L w) = won_column"

text \<open>
  One output row: the game, the rolling columns (a column is present when its window was
  requested; its cell may be NaN), the home and road split columns and \<open>games_played\<close>.
\<close>

record stats_row =
  game :: team_game
  rolling :: "column \<rightharpoonup> rat option"
  ORtg_at_home_L5 :: "rat option"
  DRtg_at_home_L5 :: "rat option"
  ORtg_on_road_L5 :: "rat option"
  DRtg_on_road_L5 :: "rat option"
  games_played :: nat

text \<open>The column \<open>metric.shift(1).rolling(window, min_periods=1).mean()\<close> of one table.\<close>

definition shifted_rolling :: "int \<Rightarrow> ('g \<Rightarrow> float) \<Rightarrow> 'g list \<Rightarrow> rat option list" where
  "shifted_rolling window metric games =
     rolling_mean (nat window) 1 (shift1 (map metric games))"

text \<open>
  \<open>DataFrame.merge(right, on='date', how='left')\<close>: the left rows in their order; a left
  row with matches on the right appears once per match, and once with NaN otherwise.
\<close>

definition merge_left ::
  "('l \<Rightarrow> int) \<Rightarrow> 'l list \<Rightarrow> (int \<times> 'v) list \<Rightarrow> ('l \<times> 'v option) list" where
  "merge_left key left right =
     concat (map (\<lambda>l. case filter (\<lambda>r. fst r = key l) right of
                         [] \<Rightarrow> [(l, None)]
                       | ms \<Rightarrow> map (\<lambda>r. (l, Some (snd r))) ms) left)"

definition split_columns ::
  "bool \<Rightarrow> team_game list \<Rightarrow> (int \<times> rat option \<times> rat option) list" where
  "split_columns home sorted_games =
     (let sub = filter (\<lambda>g. is_home g = home) sorted_games
      in zip (map date sub) (zip (shifted_rolling 5 ORtg sub) (shifted_rolling 5 DRtg sub)))"

text \<open>
  \<open>compute_team_rolling_stats\<close>.  \<open>sort_values('date')\<close> is modelled by the stable
  \<^const>\<open>sort_key\<close> (pandas' default sort leaves the order of equal dates open).
  \<open>rolling(window=w, min_periods=1)\<close> raises \<open>ValueError\<close> for a window below 1.
  The columns \<open>possessions\<close>, \<open>ORtg\<close>, \<open>DRtg\<close>, \<open>Pace\<close> and \<open>MoV\<close> that the source
  also leaves in the table are the functions above of the row's game.
\<close>

definition compute_team_rolling_stats ::
  "team_game list \<Rightarrow> int list \<Rightarrow> error + stats_row list" where
  "compute_team_rolling_stats team_games lookback_windows =
     (let sorted_games = sort_key date team_games in
      if \<exists>w \<in> set lookback_windows. w < 1 then Inl ValueError
      else
        let base = map (\<lambda>i.
                     (sorted_games ! i,
                      (\<lambda>c. if column_window c \<in> set lookback_windows
                            then Some (shifted_rolling (column_window c) (column_metric c)
                                         sorted_games ! i)
                            else None)))
                   [0 ..< length sorted_games];
            with_home = merge_left (\<lambda>l. date (fst l)) base (split_columns True sorted_games);
            with_road = merge_left (\<lambda>l. date (fst (fst l))) with_home
                          (split_columns False sorted_games)
        in Inr (map (\<lambda>(k, ((g, r), h), a).
                      \<lparr>game = g, rolling = r,
                       ORtg_at_home_L5 = (case h of None \<Rightarrow> None | Some v \<Rightarrow> fst v),
                       DRtg_at_home_L5 = (case h of None \<Rightarrow> None | Some v \<Rightarrow> snd v),
                       ORtg_on_road_L5 = (case a of None \<Rightarrow> None | Some v \<Rightarrow> fst v),
                       DRtg_on_road_L5 = (case a of None \<Rightarrow> None | Some v \<Rightarrow> snd v),
                       games_played = k\<rparr>)
                 (zip [0 ..< length with_road] with_road)))"

section \<open>Time-aware rating attachment (data-collection/ratings\_loader.py)\<close>

record rating =
  team :: string
  rating_date :: int
  AdjEM :: "rat option"
  AdjOE :: "rat option"
  AdjDE :: "rat option"
  AdjTempo :: "rat option"

text \<open>
  The ratings CSV after \<open>read_csv\<close> and the renaming of \<open>TeamName\<close>: whether it has a
  team column, whether it has a \<open>rating_date\<close> column (when it has none the field of the
  rows is not read), and its rows.
\<close>

record ratings_file =
  has_team :: bool
  has_rating_date :: bool
  file_rows :: "rating list"

text \<open>What the loader prints; \<open>is_warning\<close> holds of the lines printed with a warning sign.\<close>

datatype message =
    WarnSingleRatingDate
  | InfoDatedSnapshots nat
  | InfoPreseasonOnly int
  | WarnSeasonEnd int
  | RatingsSummary nat nat nat
  | MatchReport string nat nat
  | WarnUnmatched "string list"

fun is_warning :: "message \<Rightarrow> bool" where
  "is_warning WarnSingleRatingDate = True"
| "is_warning (WarnSeasonEnd d) = True"
| "is_warning (WarnUnmatched ts) = True"
| "is_warning m = False"

definition nunique :: "'a list \<Rightarrow> nat" where
  "nunique xs = length (remdups xs)"

definition describe_ratings :: "rating list \<Rightarrow> message list" where
  "describe_ratings ratings_df =
     [RatingsSummary (length ratings_df) (nunique (map team ratings_df))
        (nunique (map rating_date ratings_df))]"

definition preseason_dates :: "int \<Rightarrow> int" where
  "preseason_dates season =
     (if season = 2022 then 20211101 else if season = 2023 then 20221101
      else if season = 2024 then 20231101 else if season = 2025 then 20241101
      else (season - 1) * 10000 + 1101)"

definition season_start_dates :: "int \<Rightarrow> int" where
  "season_start_dates season =
     (if season = 2022 then 20211109 else if season = 2023 then 20221107
      else if season = 2024 then 20231106 else if season = 2025 then 20241104
      else (season - 1) * 10000 + 1106)"

text \<open>
  \<open>load_season_ratings\<close>; the file argument is \<^term>\<open>None :: ratings_file option\<close> when
  the path does not exist.  In \<open>dated_snapshots\<close> mode the average
  \<open>len(df) / df['team'].nunique()\<close> divides by zero on a file without rows.
\<close>

definition load_season_ratings ::
  "int \<Rightarrow> string \<Rightarrow> ratings_file option \<Rightarrow> error + rating list \<times> message list" where
  "load_season_ratings season mode file =
     (if mode \<notin> set [''season_end'', ''preseason_only'', ''dated_snapshots''] then Inl ValueError
      else case file of
        None \<Rightarrow> Inl FileNotFoundError
      | Some f \<Rightarrow>
          if \<not> has_team f then Inl ValueError
          else if mode = ''dated_snapshots'' then
            (if \<not> has_rating_date f then Inl ValueError
             else let df = file_rows f;
                      unique_dates = nunique (map rating_date df)
                  in if nunique (map team df) = 0 then Inl ZeroDivisionError
                     else Inr (df,
                            (if unique_dates = 1 then [WarnSingleRatingDate] else [])
                            @ [InfoDatedSnapshots unique_dates] @ describe_ratings df))
          else if mode = ''preseason_only'' then
            (let df = map (\<lambda>r. r\<lparr>rating_date := preseason_dates season\<rparr>) (file_rows f)
             in Inr (df, [InfoPreseasonOnly (preseason_dates season)] @ describe_ratings df))
          else
            (let df = map (\<lambda>r. r\<lparr>rating_date := season_start_dates season\<rparr>) (file_rows f)
             in Inr (df, [WarnSeasonEnd (season_start_dates season)] @ describe_ratings df)))"

text \<open>
  The rating matched to one game (lines 256 to 280): the ratings of the normalised team
  name, those dated on or before the game, sorted by date descending, first row.
  \<^term>\<open>None :: rating option\<close> is the row of \<open>None\<close> cells the source appends.
\<close>

definition match_rating :: "rating list \<Rightarrow> string \<Rightarrow> int \<Rightarrow> rating option" where
  "match_rating ratings_df team_name game_date =
     (let team_ratings = filter (\<lambda>r. team r = team_name) ratings_df in
      if team_ratings = [] then None
      else let available_ratings = filter (\<lambda>r. rating_date r \<le> game_date) team_ratings in
        if available_ratings = [] then None
        else Some (hd (sort_key (\<lambda>r. - rating_date r) available_ratings)))"

text \<open>
  \<open>attach_team_ratings\<close>.  \<open>normalize_team_name\<close> (out of scope) and the team column are
  parameters.  The result pairs every game, in order, with its matched rating.  On an
  empty game table the column \<open>AdjEM_{side}\<close> does not exist and the report raises
  \<open>KeyError\<close>.  The report counts a game as matched when its \<open>AdjEM\<close> cell is not null.
\<close>

definition attach_team_ratings ::
  "(string \<Rightarrow> string) \<Rightarrow> ('g dated_scheme \<Rightarrow> string) \<Rightarrow> 'g dated_scheme list \<Rightarrow> rating list
     \<Rightarrow> string \<Rightarrow> error + ('g dated_scheme \<times> rating option) list \<times> message list" where
  "attach_team_ratings normalize_team_name team_col games_df ratings_df side =
     (if side \<notin> set [''home'', ''away''] then Inl ValueError
      else
        let result_df =
              map (\<lambda>game. (game, match_rating ratings_df (normalize_team_name (team_col game))
                                   (date game))) games_df
        in if games_df = [] then Inl KeyError
           else
             let total_games = length result_df;
                 is_matched = (\<lambda>row. case snd row of None \<Rightarrow> False | Some r \<Rightarrow> AdjEM r \<noteq> None);
                 matched_games = length (filter is_matched result_df)
             in Inr (result_df,
                  [MatchReport side matched_games total_games]
                  @ (if matched_games < total_games
                     then [WarnUnmatched
                             (remdups (map (\<lambda>row. team_col (fst row))
                                (filter (\<lambda>row. \<not> is_matched row) result_df)))]
                     else [])))"

text \<open>A game table with the two team columns.\<close>

record game = dated +
  home_team :: string
  away_team :: string







section \<open>Walk-forward evaluation (ml/walkforward\_backtest.py)\<close>

definition split_train_test_by_date ::
  "'r dated_scheme list \<Rightarrow> int \<Rightarrow> int \<Rightarrow> 'r dated_scheme list \<times> 'r dated_scheme list" where
  "split_train_test_by_date df test_start_date test_end_date =
     (filter (\<lambda>r. date r < test_start_date) df,
      filter (\<lambda>r. date r \<ge> test_start_date \<and> date r \<le> test_end_date) df)"

text \<open>
  What one fitted period records: \<open>train_rows\<close> is the table handed to
  \<open>train_models\<close> (the only place an estimator's \<open>fit\<close> is called) and \<open>test_rows\<close> the
  table handed to \<open>generate_predictions_and_edges\<close>.
\<close>

record 'r period_result =
  period :: int
  train_end :: int
  test_start :: int
  test_end :: int
  train_rows :: "'r list"
  test_rows :: "'r list"

text \<open>
  The \<open>while\<close> loop of \<open>walkforward_backtest\<close>, returning the fitted periods in order.
  When the test window is not empty and \<open>current_test_end\<close> does not exceed
  \<open>current_test_start\<close> (a window of zero days), the source's loop repeats the same
  window for ever: that is the value \<^term>\<open>None :: 'a list option\<close>.
\<close>

function wf_loop ::
  "'r dated_scheme list \<Rightarrow> int \<Rightarrow> int \<Rightarrow> int \<Rightarrow> int
     \<Rightarrow> ('r dated_scheme) period_result list option" where
  "wf_loop df test_window_days max_date current_test_start period_num =
     (if current_test_start < max_date then
        (let current_test_end = min (current_test_start + test_window_days) max_date;
             train_df = fst (split_train_test_by_date df current_test_start current_test_end);
             test_df = snd (split_train_test_by_date df current_test_start current_test_end)
         in if test_df = [] then Some []
            else if current_test_end \<le> current_test_start then None
            else if length train_df < 50
            then wf_loop df test_window_days max_date current_test_end (period_num + 1)
            else map_option
                   (\<lambda>rest. \<lparr>period = period_num, train_end = current_test_start,
                             test_start = current_test_start, test_end = current_test_end,
                             train_rows = train_df, test_rows = test_df\<rparr> # rest)
                   (wf_loop df test_window_days max_date current_test_end (period_num + 1)))
      else Some [])"
  by pat_completeness auto
termination
  by (relation "measure (\<lambda>(df, w, max_date, start, n). nat (max_date - start))") auto

declare wf_loop.simps [simp del]

text \<open>
  \<open>walkforward_backtest\<close>: on an empty table the minimum and maximum dates are NaT, every
  comparison with them is false and the loop is not entered.
\<close>

definition walkforward_backtest ::
  "'r dated_scheme list \<Rightarrow> int \<Rightarrow> int \<Rightarrow> ('r dated_scheme) period_result list option" where
  "walkforward_backtest df initial_train_months test_window_days =
     (if df = [] then Some []
      else
        let min_date = Min (set (map date df));
            max_date = Max (set (map date df));
            initial_train_end = min_date + initial_train_months * 30
        in wf_loop df test_window_days max_date initial_train_end 1)"

section \<open>Kelly stake sizing (ml/ncaabb\_variant\_b\_model.py)\<close>

text \<open>
  \<open>calculate_kelly_stake\<close> returns the pair (full Kelly, applied Kelly).  Odds of 0 make
  \<open>decimal_odds - 1\<close> zero: Python floats raise \<open>ZeroDivisionError\<close> (numpy doubles
  inside \<open>DataFrame.apply\<close> give an infinite full Kelly instead, which the rationals
  cannot hold).
\<close>

definition calculate_kelly_stake :: "rat \<Rightarrow> rat \<Rightarrow> rat \<Rightarrow> rat \<Rightarrow> error + rat \<times> rat" where
  "calculate_kelly_stake edge' odds_american kelly_fraction max_fraction =
     (let decimal_odds = (if odds_american < 0 then 1 + 100 / \<bar>odds_american\<bar>
                          else 1 + odds_american / 100)
      in if decimal_odds - 1 = 0 then Inl ZeroDivisionError
         else
           let full_kelly = edge' / (decimal_odds - 1);
               applied_kelly = full_kelly * kelly_fraction;
               applied_kelly = min applied_kelly max_fraction;
               applied_kelly = max applied_kelly 0
           in Inr (full_kelly, applied_kelly))"

text \<open>\<open>Series.round(0)\<close> rounds to the nearest integer, a tie to the even neighbour.\<close>

definition round_half_even :: "rat \<Rightarrow> int" where
  "round_half_even x =
     (let f = \<lfloor>x\<rfloor>; d = x - of_int f
      in if d < 1 / 2 then f else if d > 1 / 2 then f + 1
         else if even f then f else f + 1)"

text \<open>
  \<open>astype(int)\<close> on a column of rounded doubles: the target is a 64-bit signed integer.
  A double outside its range is not representable; the conversion of the x86-64
  processors, which numpy uses without a check, then yields the least 64-bit integer.
\<close>

definition to_int64 :: "int \<Rightarrow> int" where
  "to_int64 n = (if - (2 ^ 63) \<le> n \<and> n < 2 ^ 63 then n else - (2 ^ 63))"

text \<open>
  The columns \<open>add_kelly_stakes\<close> computes for one row: \<open>kelly_full\<close>, \<open>kelly_applied\<close>
  and \<open>bet_size_dollars\<close>, the last one being
  \<open>(kelly_applied * bankroll).round(0).astype(int)\<close>.  The product is exact here; the
  product of the doubles can fall on the other side of a tie between two dollars.
\<close>

definition kelly_row :: "rat \<Rightarrow> rat \<Rightarrow> rat \<Rightarrow> rat \<Rightarrow> rat \<Rightarrow> error + rat \<times> rat \<times> int" where
  "kelly_row max_edge bet_odds bankroll kelly_fraction max_fraction =
     (case calculate_kelly_stake max_edge bet_odds kelly_fraction max_fraction of
        Inl e \<Rightarrow> Inl e
      | Inr k \<Rightarrow> Inr (fst k, snd k, to_int64 (round_half_even (snd k * bankroll))))"

definition bet_size_dollars :: "rat \<Rightarrow> rat \<Rightarrow> rat \<Rightarrow> rat \<Rightarrow> rat \<Rightarrow> error + int" where
  "bet_size_dollars max_edge bet_odds bankroll kelly_fraction max_fraction =
     map_sum id (\<lambda>k. snd (snd k)) (kelly_row max_edge bet_odds bankroll kelly_fraction max_fraction)"

section \<open>Tables with columns read by name\<close>

text \<open>
  A pandas table whose columns the source reads by name: the list of column names and
  the rows.  A row gives every numeric column a cell (\<^term>\<open>None :: rat option\<close> is NaN)
  and every text column a string; only the columns listed in \<open>columns\<close> exist.
\<close>

record frame_row =
  num :: "string \<Rightarrow> rat option"
  str :: "string \<Rightarrow> string"

record dataframe =
  columns :: "string list"
  rows :: "frame_row list"

definition set_num :: "string \<Rightarrow> rat option \<Rightarrow> frame_row \<Rightarrow> frame_row" where
  "set_num c v r = r\<lparr>num := (num r)(c := v)\<rparr>"

definition set_str :: "string \<Rightarrow> string \<Rightarrow> frame_row \<Rightarrow> frame_row" where
  "set_str c v r = r\<lparr>str := (str r)(c := v)\<rparr>"

text \<open>\<open>DataFrame.max(axis=1)\<close> over two columns skips NaN.\<close>

definition row_max :: "rat option \<Rightarrow> rat option \<Rightarrow> rat option" where
  "row_max a b = (case (a, b) of
                    (Some x, Some y) \<Rightarrow> Some (max x y)
                  | (Some x, None) \<Rightarrow> Some x
                  | (None, Some y) \<Rightarrow> Some y
                  | (None, None) \<Rightarrow> None)"

section \<open>Production prediction (ml/ncaabb\_variant\_b\_model.py)\<close>

definition fillna0 :: "rat option \<Rightarrow> rat option" where
  "fillna0 v = (case v of None \<Rightarrow> Some 0 | Some x \<Rightarrow> Some x)"

text \<open>Line 212: \<open>X = df[feature_cols].fillna(0)\<close>, one list of cells per game.\<close>

definition feature_matrix :: "dataframe \<Rightarrow> string list \<Rightarrow> rat option list list" where
  "feature_matrix df feature_cols =
     map (\<lambda>r. map (\<lambda>c. fillna0 (num r c)) feature_cols) (rows df)"

text \<open>
  The estimator and the scaler are black boxes.  \<open>predict_proba\<close> gives the column of
  home-win probabilities or raises (\<^term>\<open>None :: 'a option\<close>), in which case the source
  falls back to \<open>predict\<close>, whose exception is not caught.
\<close>

record estimator =
  predict_proba :: "rat option list list \<Rightarrow> rat option list option"
  predict :: "rat option list list \<Rightarrow> rat option list option"

text \<open>Lines 215 to 223: the optional scaling, and \<open>predict_proba\<close> with its fallback.\<close>

definition apply_scaler ::
  "(rat option list list \<Rightarrow> rat option list list) option \<Rightarrow> rat option list list
     \<Rightarrow> rat option list list" where
  "apply_scaler scaler X = (case scaler of None \<Rightarrow> X | Some transform \<Rightarrow> transform X)"

definition model_probs :: "estimator \<Rightarrow> rat option list list \<Rightarrow> rat option list option" where
  "model_probs model X =
     (case predict_proba model X of Some p \<Rightarrow> Some p | None \<Rightarrow> predict model X)"

text \<open>Lines 225 to 258 for one game and its predicted probability.\<close>

definition score_row :: "frame_row \<Rightarrow> rat option \<Rightarrow> frame_row" where
  "score_row r prob =
     (let model_prob_home = prob;
          model_prob_away = nan_sub (Some 1) prob;
          edge_home' = nan_sub model_prob_home (num r ''home_implied_prob'');
          edge_away' = nan_sub model_prob_away (num r ''away_implied_prob'');
          max_edge = row_max edge_home' edge_away';
          home = nan_gt edge_home' edge_away';
          chosen_side = (if home then ''home'' else ''away'')
      in (set_num ''bet_implied_prob''
            (if home then num r ''home_implied_prob'' else num r ''away_implied_prob'')
         (set_num ''bet_prob'' (if home then model_prob_home else model_prob_away)
         (set_num ''bet_odds'' (if home then num r ''home_ml'' else num r ''away_ml'')
         (set_str ''recommended_bet'' (chosen_side @ ''_ml'')
         (set_str ''chosen_side'' chosen_side
         (set_num ''max_edge'' max_edge
         (set_num ''edge_away'' edge_away'
         (set_num ''edge_home'' edge_home'
         (set_num ''model_prob_away'' model_prob_away
         (set_num ''model_prob_home'' model_prob_home r)))))))))))"

definition prediction_columns :: "string list" where
  "prediction_columns =
     [''model_prob_home'', ''model_prob_away'', ''edge_home'', ''edge_away'', ''max_edge'',
      ''chosen_side'', ''recommended_bet'', ''bet_odds'', ''bet_prob'', ''bet_implied_prob'']"

text \<open>
  \<open>score_games\<close> is \<open>predict_variant_b\<close> up to line 258: the table \<open>df\<close> with a
  probability and edges for every game.  \<open>predict_variant_b\<close> returns its rows whose
  \<open>max_edge\<close> reaches \<open>min_edge\<close>.
\<close>

definition score_games ::
  "dataframe \<Rightarrow> estimator \<Rightarrow> string list \<Rightarrow> (rat option list list \<Rightarrow> rat option list list) option
     \<Rightarrow> error + dataframe" where
  "score_games games_df model feature_cols scaler =
     (if \<not> set feature_cols \<subseteq> set (columns games_df) then Inl KeyError
      else
        let X = feature_matrix games_df feature_cols;
            X = apply_scaler scaler X;
            probs = model_probs model X
        in case probs of
             None \<Rightarrow> Inl EstimatorError
           | Some probs \<Rightarrow>
               if length probs \<noteq> length (rows games_df) then Inl ValueError
               else if \<not> set [''home_implied_prob'', ''away_implied_prob'', ''home_ml'', ''away_ml'']
                           \<subseteq> set (columns games_df) then Inl KeyError
               else Inr \<lparr>columns = columns games_df
                              @ filter (\<lambda>c. c \<notin> set (columns games_df)) prediction_columns,
                         rows = map (\<lambda>(r, p). score_row r p) (zip (rows games_df) probs)\<rparr>)"

definition predict_variant_b ::
  "dataframe \<Rightarrow> estimator \<Rightarrow> string list \<Rightarrow> rat
     \<Rightarrow> (rat option list list \<Rightarrow> rat option list list) option \<Rightarrow> error + dataframe" where
  "predict_variant_b games_df model feature_cols min_edge scaler =
     (case score_games games_df model feature_cols scaler of
        Inl e \<Rightarrow> Inl e
      | Inr df \<Rightarrow>
          Inr (df\<lparr>rows := filter (\<lambda>r. nan_ge (num r ''max_edge'') (Some min_edge)) (rows df)\<rparr>))"

text \<open>
  The table in which every NaN of a feature column is the number 0 (used to state what
  the estimator is shown; not a function of the source).
\<close>

definition zero_filled :: "string list \<Rightarrow> dataframe \<Rightarrow> dataframe" where
  "zero_filled feature_cols df =
     df\<lparr>rows := map (\<lambda>r. r\<lparr>num := (\<lambda>c. if c \<in> set feature_cols then fillna0 (num r c)
                                           else num r c)\<rparr>) (rows df)\<rparr>"

text \<open>
  \<open>add_kelly_stakes\<close> on the table of qualified bets.  A NaN edge or NaN odds gives a NaN
  stake, which \<open>astype(int)\<close> refuses with \<open>ValueError\<close>.
\<close>

definition add_kelly_row :: "rat \<Rightarrow> rat \<Rightarrow> rat \<Rightarrow> frame_row \<Rightarrow> error + frame_row" where
  "add_kelly_row bankroll kelly_fraction max_fraction r =
     (case (num r ''max_edge'', num r ''bet_odds'') of
        (Some e, Some odds) \<Rightarrow>
          (case kelly_row e odds bankroll kelly_fraction max_fraction of
             Inl err \<Rightarrow> Inl (if err = ZeroDivisionError then NonFinite else err)
           | Inr k \<Rightarrow>
               Inr (set_num ''bet_size_dollars'' (Some (of_int (snd (snd k))))
                   (set_num ''kelly_applied'' (Some (fst (snd k)))
                   (set_num ''kelly_full'' (Some (fst k)) r))))
      | _ \<Rightarrow> Inl ValueError)"

fun collect :: "(error + 'a) list \<Rightarrow> error + 'a list" where
  "collect [] = Inr []"
| "collect (Inl e # xs) = Inl e"
| "collect (Inr x # xs) = (case collect xs of Inl e \<Rightarrow> Inl e | Inr ys \<Rightarrow> Inr (x # ys))"

definition add_kelly_stakes :: "dataframe \<Rightarrow> rat \<Rightarrow> rat \<Rightarrow> rat \<Rightarrow> error + dataframe" where
  "add_kelly_stakes bets_df bankroll kelly_fraction max_fraction =
     (if rows bets_df \<noteq> [] \<and> \<not> set [''max_edge'', ''bet_odds''] \<subseteq> set (columns bets_df)
      then Inl KeyError
      else case collect (map (add_kelly_row bankroll kelly_fraction max_fraction) (rows bets_df)) of
             Inl e \<Rightarrow> Inl e
           | Inr rs \<Rightarrow>
               Inr \<lparr>columns = columns bets_df
                       @ filter (\<lambda>c. c \<notin> set (columns bets_df))
                           [''kelly_full'', ''kelly_applied'', ''bet_size_dollars''],
                    rows = rs\<rparr>)"

section \<open>Longdog calibration (ml/experiments\_ncaabb/underdog\_longdogs\_calibration.py)\<close>

text \<open>
  One row of the longdog CSV.  The source's columns \<open>american_odds\<close> and \<open>outcome\<close> carry
  the suffix \<open>_ld\<close> here, the plain names being fields of \<open>bet\<close>.  A missing outcome (a
  game not yet played) is \<^term>\<open>None :: rat option\<close>.
\<close>

record longdog = dated +
  model_prob :: rat
  outcome_ld :: "rat option"
  american_odds_ld :: rat

text \<open>\<open>astype(int)\<close> on a double truncates towards zero.\<close>

definition astype_int :: "rat \<Rightarrow> int" where
  "astype_int x = (if x \<ge> 0 then \<lfloor>x\<rfloor> else \<lceil>x\<rceil>)"

definition load_longdogs_data :: "longdog list \<Rightarrow> rat \<Rightarrow> rat \<Rightarrow> longdog list" where
  "load_longdogs_data csv min_odds max_odds =
     (let df = filter (\<lambda>r. american_odds_ld r \<ge> min_odds \<and> american_odds_ld r \<le> max_odds) csv;
          df = filter (\<lambda>r. outcome_ld r \<noteq> None) df;
          df = map (\<lambda>r. r\<lparr>outcome_ld := map_option (\<lambda>x. of_int (astype_int x)) (outcome_ld r)\<rparr>) df
      in sort_key date df)"

definition split_by_date :: "longdog list \<Rightarrow> rat \<Rightarrow> longdog list \<times> longdog list" where
  "split_by_date df test_ratio =
     (let split_idx = astype_int (of_nat (length df) * (1 - test_ratio));
          k = (if split_idx < 0 then length df - nat (- split_idx) else nat split_idx)
      in (take k df, drop k df))"

text \<open>
  What \<open>main\<close> does after parsing its arguments, as the list of its steps: the warning
  about too few samples, or the chronological split followed by the two fits on the
  training part (the evaluation and the saving of the fitted models follow and are not
  represented).
\<close>

datatype calibration_step =
    WarnInsufficientSamples nat
  | FitPlatt "longdog list"
  | FitIsotonic "longdog list"

fun is_fit :: "calibration_step \<Rightarrow> bool" where
  "is_fit (FitPlatt d) = True"
| "is_fit (FitIsotonic d) = True"
| "is_fit (WarnInsufficientSamples n) = False"

definition main :: "longdog list \<Rightarrow> rat \<Rightarrow> rat \<Rightarrow> rat \<Rightarrow> calibration_step list" where
  "main csv min_odds max_odds test_ratio =
     (let df = load_longdogs_data csv min_odds max_odds in
      if length df < 50 then [WarnInsufficientSamples (length df)]
      else let train_df = fst (split_by_date df test_ratio)
           in [FitPlatt train_df, FitIsotonic train_df])"

section \<open>Merged dataset (data-collection/merge\_odds\_with\_kenpom.py, ml/check\_merged\_dataset.py)\<close>














section \<open>Concrete inputs\<close>

text \<open>Three games of an edges table: away odds of +150, home odds of +200, away odds of +450.\<close>

definition policy_games :: "edges_row list" where
  "policy_games =
     [\<lparr>home_ml = -180, away_ml = 150, edge_home = -1/2, edge_away = 1/2, home_won = False\<rparr>,
      \<lparr>home_ml = 200, away_ml = -250, edge_home = 1/15, edge_away = -1/10, home_won = True\<rparr>,
      \<lparr>home_ml = -700, away_ml = 450, edge_home = 0, edge_away = 3/10, home_won = True\<rparr>]"

text \<open>
  A longdog CSV of three rows: one inside the odds range with an outcome, one below the
  range, one without an outcome.
\<close>

definition longdog_csv :: "longdog list" where
  "longdog_csv =
     [\<lparr>date = 20240105, model_prob = 1/5, outcome_ld = Some 0, american_odds_ld = 450\<rparr>,
      \<lparr>date = 20240106, model_prob = 2/5, outcome_ld = Some 1, american_odds_ld = 150\<rparr>,
      \<lparr>date = 20240107, model_prob = 1/10, outcome_ld = None, american_odds_ld = 900\<rparr>]"

text \<open>
  Two live games with one rolling feature; the second has no history (NaN).  The
  estimator adds a thousandth of the feature to the market probability and answers NaN
  on a NaN cell.
\<close>

definition live_row :: "rat \<Rightarrow> rat \<Rightarrow> rat option \<Rightarrow> frame_row" where
  "live_row h a ortg =
     \<lparr>num = (\<lambda>c. None)(''home_ml'' := Some h, ''away_ml'' := Some a,
               ''home_implied_prob'' := Some (if h < 0 then \<bar>h\<bar> / (\<bar>h\<bar> + 100) else 100 / (h + 100)),
               ''away_implied_prob'' := Some (if a < 0 then \<bar>a\<bar> / (\<bar>a\<bar> + 100) else 100 / (a + 100)),
               ''ORtg_L5_home'' := ortg),
      str = (\<lambda>c. [])\<rparr>"

definition live_games :: dataframe where
  "live_games =
     \<lparr>columns = [''home_ml'', ''away_ml'', ''home_implied_prob'', ''away_implied_prob'',
                  ''ORtg_L5_home''],
      rows = [live_row (-150) 130 (Some 110), live_row 300 (-400) None]\<rparr>"

definition live_features :: "string list" where
  "live_features = [''home_implied_prob'', ''ORtg_L5_home'']"

definition live_model :: estimator where
  "live_model =
     \<lparr>predict_proba = (\<lambda>X. Some (map (\<lambda>row. case row of
                                    [Some h, Some v] \<Rightarrow> Some (h + v / 1000)
                                  | _ \<Rightarrow> None) X)),
      predict = (\<lambda>X. None)\<rparr>"

text \<open>
  The snapshots a game may use: those of the team dated on or before the game (used to
  state the as-of rule; not a function of the source).
\<close>

definition eligible :: "rating list \<Rightarrow> string \<Rightarrow> int \<Rightarrow> rating list" where
  "eligible ratings_df team_name game_date =
     filter (\<lambda>r. team r = team_name \<and> rating_date r \<le> game_date) ratings_df"

text \<open>
  A season-end ratings file without a \<open>rating_date\<close> column, a game on 2024-03-01, and
  dated snapshots of which Duke has two before the game and Kansas none.
\<close>

definition kenpom_2024 :: ratings_file where
  "kenpom_2024 =
     \<lparr>has_team = True, has_rating_date = False,
      file_rows =
        [\<lparr>team = ''Duke'', rating_date = 0, AdjEM = Some 26, AdjOE = Some 121,
          AdjDE = Some 95, AdjTempo = Some 67\<rparr>,
         \<lparr>team = ''Kansas'', rating_date = 0, AdjEM = Some 19, AdjOE = Some 115,
          AdjDE = Some 96, AdjTempo = Some 68\<rparr>]\<rparr>"

definition march_game :: game where
  "march_game = \<lparr>date = 20240301, home_team = ''Duke'', away_team = ''Kansas''\<rparr>"

definition dated_ratings :: "rating list" where
  "dated_ratings =
     [\<lparr>team = ''Duke'', rating_date = 20240110, AdjEM = Some 24, AdjOE = Some 120,
       AdjDE = Some 96, AdjTempo = Some 67\<rparr>,
      \<lparr>team = ''Duke'', rating_date = 20240220, AdjEM = Some 25, AdjOE = Some 120,
       AdjDE = Some 95, AdjTempo = Some 67\<rparr>,
      \<lparr>team = ''Duke'', rating_date = 20240310, AdjEM = Some 27, AdjOE = Some 122,
       AdjDE = Some 95, AdjTempo = Some 67\<rparr>,
      \<lparr>team = ''Kansas'', rating_date = 20240305, AdjEM = Some 19, AdjOE = Some 115,
       AdjDE = Some 96, AdjTempo = Some 68\<rparr>]"

definition season_end_2024 :: "rating list" where
  "season_end_2024 = map (\<lambda>r. r\<lparr>rating_date := 20231106\<rparr>) (file_rows kenpom_2024)"

definition preseason_2024 :: "rating list" where
  "preseason_2024 = map (\<lambda>r. r\<lparr>rating_date := 20231101\<rparr>) (file_rows kenpom_2024)"

text \<open>
  Predicates on the list of fitted periods (used in the proofs; not functions of the
  source): each window starts at or after a bound and is not empty, each window starts
  where the previous one ends, and a period records the split of its window.
\<close>

fun ordered_from :: "int \<Rightarrow> 'r period_result list \<Rightarrow> bool" where
  "ordered_from lo [] = True"
| "ordered_from lo (p # ps) \<longleftrightarrow>
     lo \<le> test_start p \<and> test_start p < test_end p \<and> ordered_from (test_end p) ps"

definition period_ok :: "'r dated_scheme list \<Rightarrow> ('r dated_scheme) period_result \<Rightarrow> bool" where
  "period_ok df p \<longleftrightarrow>
     train_rows p = filter (\<lambda>r. date r < test_start p) df
   \<and> test_rows p = filter (\<lambda>r. date r \<ge> test_start p \<and> date r \<le> test_end p) df
   \<and> 50 \<le> length (train_rows p) \<and> test_rows p \<noteq> []"

fun adjacent_from :: "int \<Rightarrow> 'r period_result list \<Rightarrow> bool" where
  "adjacent_from s [] = True"
| "adjacent_from s (p # ps) \<longleftrightarrow> test_start p = s \<and> adjacent_from (test_end p) ps"

text \<open>
  An event table for the walk-forward run: fifty games on day 0, then games on days 90,
  100 and 120; with two initial months and windows of 30 days the windows are
  [60, 90] and [90, 120].
\<close>

record event = dated +
  event_id :: nat

definition early_games :: "event list" where
  "early_games = map (\<lambda>k. \<lparr>date = 0, event_id = k\<rparr>) [0 ..< 50]"

definition g90 :: event where "g90 = \<lparr>date = 90, event_id = 50\<rparr>"
definition g100 :: event where "g100 = \<lparr>date = 100, event_id = 51\<rparr>"
definition g120 :: event where "g120 = \<lparr>date = 120, event_id = 52\<rparr>"

definition wf_games :: "event list" where
  "wf_games = early_games @ [g90, g100, g120]"

definition wf_expected :: "event period_result list" where
  "wf_expected =
     [\<lparr>period = 1, train_end = 60, test_start = 60, test_end = 90,
       train_rows = early_games, test_rows = [g90]\<rparr>,
      \<lparr>period = 2, train_end = 90, test_start = 90, test_end = 120,
       train_rows = early_games, test_rows = [g90, g100, g120]\<rparr>]"


definition mean :: "rat list \<Rightarrow> rat option" where
  "mean xs = (if xs = [] then None else Some (sum_list xs / of_nat (length xs)))"

text \<open>The table of \<open>compute_team_rolling_stats\<close> before the two merges.\<close>

definition base_rows ::
  "team_game list \<Rightarrow> int list \<Rightarrow> (team_game \<times> (column \<rightharpoonup> rat option)) list" where
  "base_rows sorted_games lookback_windows =
     map (\<lambda>i. (sorted_games ! i,
                (\<lambda>c. if column_window c \<in> set lookback_windows
                      then Some (shifted_rolling (column_window c) (column_metric c)
                                   sorted_games ! i)
                      else None)))
         [0 ..< length sorted_games]"

text \<open>
  Four games of one team, given out of date order, without box-score columns (70
  possessions each).
\<close>

definition played :: "int \<Rightarrow> rat \<Rightarrow> rat \<Rightarrow> bool \<Rightarrow> team_game" where
  "played d pf pa h = \<lparr>date = d, points_for = Some pf, points_against = Some pa,
                  won = Some (if pf > pa then 1 else 0), is_home = h,
                  fga = None, fta = None, oreb = Some 0, tov = Some 0\<rparr>"

definition season_games :: "team_game list" where
  "season_games = [played 3 77 70 True, played 1 70 63 True, played 2 63 70 False, played 5 84 70 False]"











section \<open>Properties of the odds-band policy\<close>

lemma policy_step_fst:
  "fst (policy_step st row) = fst st @ (if accepted row then [row] else [])"
  by (simp add: policy_step_def accepted_def Let_def split: option.split)

lemma policy_step_longdogs:
  "filtered_longdogs (snd (policy_step st row)) =
     filtered_longdogs (snd st) + (if american_odds row \<ge> 400 then 1 else 0)"
  by (simp add: policy_step_def Let_def split: option.split)

lemma policy_step_death_valleys:
  "filtered_death_valleys (snd (policy_step st row)) =
     filtered_death_valleys (snd st)
     + (if \<not> american_odds row \<ge> 400
           \<and> decide_min_edge_for_odds (american_odds row) (is_favorite row) = None
        then 1 else 0)"
  by (simp add: policy_step_def Let_def split: option.split)

lemma foldl_policy_step_fst:
  "fst (foldl policy_step st df) = fst st @ filter accepted df"
  by (induction df arbitrary: st) (simp_all add: policy_step_fst)

lemma foldl_policy_step_longdogs:
  "filtered_longdogs (snd (foldl policy_step st df)) =
     filtered_longdogs (snd st) + length (filter (\<lambda>row. american_odds row \<ge> 400) df)"
  by (induction df arbitrary: st) (simp_all add: policy_step_longdogs)

lemma foldl_policy_step_death_valleys:
  "filtered_death_valleys (snd (foldl policy_step st df)) =
     filtered_death_valleys (snd st)
     + length (filter (\<lambda>row. \<not> american_odds row \<ge> 400
                 \<and> decide_min_edge_for_odds (american_odds row) (is_favorite row) = None) df)"
  by (induction df arbitrary: st) (simp_all add: policy_step_death_valleys)

lemma apply_policy_death_valleys:
  "filtered_death_valleys (snd (apply_odds_aware_policy df)) =
     length (filter (\<lambda>row. \<not> american_odds row \<ge> 400
                 \<and> decide_min_edge_for_odds (american_odds row) (is_favorite row) = None) df)"
  by (simp add: apply_odds_aware_policy_def foldl_policy_step_death_valleys)

lemma apply_policy_accepts: "fst (apply_odds_aware_policy df) = filter accepted df"
  by (simp add: apply_odds_aware_policy_def foldl_policy_step_fst)

lemma apply_policy_longdogs:
  "filtered_longdogs (snd (apply_odds_aware_policy df)) =
     length (filter (\<lambda>row. american_odds row \<ge> 400) df)"
  by (simp add: apply_odds_aware_policy_def foldl_policy_step_longdogs)

lemma load_edges_data_favorite:
  "row \<in> set (load_edges_data games) \<Longrightarrow> is_favorite row = (american_odds row < 0)"
  by (auto simp: load_edges_data_def home_bet_def away_bet_def)

text \<open>
  Claim C5.  For the bet table built by \<open>load_edges_data\<close> and filtered by
  \<open>apply_odds_aware_policy\<close>: a row with odds below +400 is accepted exactly when its band
  is not a skip band and its edge reaches the band's required edge; a row at +150 is
  rejected whatever its edge; a row with odds in [+200, +250) and non-negative edge is
  accepted; a row with odds of +400 or more is never accepted, and such rows are counted
  as filtered longdogs by the test that precedes the band lookup, never among the rows
  the band table skips.
\<close>

theorem C5_odds_band_policy:
  assumes "row \<in> set (load_edges_data games)"
  shows "(american_odds row < 400 \<longrightarrow>
           (row \<in> set (fst (apply_odds_aware_policy (load_edges_data games))) \<longleftrightarrow>
            (\<exists>required_edge.
               decide_min_edge_for_odds (american_odds row) (is_favorite row) = Some required_edge
               \<and> edge row \<ge> required_edge)))
       \<and> (american_odds row = 150 \<longrightarrow>
            row \<notin> set (fst (apply_odds_aware_policy (load_edges_data games))))
       \<and> (200 \<le> american_odds row \<and> american_odds row < 250 \<and> 0 \<le> edge row \<longrightarrow>
            row \<in> set (fst (apply_odds_aware_policy (load_edges_data games))))
       \<and> (american_odds row \<ge> 400 \<longrightarrow>
            row \<notin> set (fst (apply_odds_aware_policy (load_edges_data games))))
       \<and> filtered_longdogs (snd (apply_odds_aware_policy (load_edges_data games))) =
            length (filter (\<lambda>r. american_odds r \<ge> 400) (load_edges_data games))
       \<and> filtered_death_valleys (snd (apply_odds_aware_policy (load_edges_data games))) =
            length (filter (\<lambda>r. \<not> american_odds r \<ge> 400
                        \<and> decide_min_edge_for_odds (american_odds r) (is_favorite r) = None)
                      (load_edges_data games))"
proof -
  have fav: "is_favorite row = (american_odds row < 0)"
    using assms by (rule load_edges_data_favorite)
  have a: "american_odds row < 400 \<longrightarrow>
           (row \<in> set (fst (apply_odds_aware_policy (load_edges_data games))) \<longleftrightarrow>
            (\<exists>required_edge.
               decide_min_edge_for_odds (american_odds row) (is_favorite row) = Some required_edge
               \<and> edge row \<ge> required_edge))"
    using assms by (auto simp: apply_policy_accepts accepted_def split: option.splits)
  have b: "american_odds row = 150 \<longrightarrow>
           row \<notin> set (fst (apply_odds_aware_policy (load_edges_data games)))"
    using fav by (simp add: apply_policy_accepts accepted_def decide_min_edge_for_odds_def)
  have c: "200 \<le> american_odds row \<and> american_odds row < 250 \<and> 0 \<le> edge row \<longrightarrow>
           row \<in> set (fst (apply_odds_aware_policy (load_edges_data games)))"
    using fav assms by (simp add: apply_policy_accepts accepted_def decide_min_edge_for_odds_def)
  have d: "american_odds row \<ge> 400 \<longrightarrow>
           row \<notin> set (fst (apply_odds_aware_policy (load_edges_data games)))"
    by (simp add: apply_policy_accepts accepted_def)
  have e: "filtered_longdogs (snd (apply_odds_aware_policy (load_edges_data games))) =
           length (filter (\<lambda>r. american_odds r \<ge> 400) (load_edges_data games))"
    by (rule apply_policy_longdogs)
  have f: "filtered_death_valleys (snd (apply_odds_aware_policy (load_edges_data games))) =
            length (filter (\<lambda>r. \<not> american_odds r \<ge> 400
                        \<and> decide_min_edge_for_odds (american_odds r) (is_favorite r) = None)
                      (load_edges_data games))"
    by (rule apply_policy_death_valleys)
  show ?thesis by (rule conjI [OF a conjI [OF b conjI [OF c conjI [OF d conjI [OF e f]]]]])
qed

theorem C5_odds_band_policy_witness:
  "away_bet (policy_games ! 0) \<in> set (load_edges_data policy_games)
   \<and> american_odds (away_bet (policy_games ! 0)) = 150
   \<and> away_bet (policy_games ! 0) \<notin> set (fst (apply_odds_aware_policy (load_edges_data policy_games)))
   \<and> home_bet (policy_games ! 1) \<in> set (load_edges_data policy_games)
   \<and> american_odds (home_bet (policy_games ! 1)) = 200
   \<and> home_bet (policy_games ! 1) \<in> set (fst (apply_odds_aware_policy (load_edges_data policy_games)))
   \<and> away_bet (policy_games ! 2) \<in> set (load_edges_data policy_games)
   \<and> american_odds (away_bet (policy_games ! 2)) = 450
   \<and> away_bet (policy_games ! 2) \<notin> set (fst (apply_odds_aware_policy (load_edges_data policy_games)))
   \<and> filtered_longdogs (snd (apply_odds_aware_policy (load_edges_data policy_games))) = 1"
proof -
  have m0: "away_bet (policy_games ! 0) \<in> set (load_edges_data policy_games)"
    and m1: "home_bet (policy_games ! 1) \<in> set (load_edges_data policy_games)"
    and m2: "away_bet (policy_games ! 2) \<in> set (load_edges_data policy_games)"
    by (simp_all add: load_edges_data_def policy_games_def)
  have o0: "american_odds (away_bet (policy_games ! 0)) = 150"
    and o1: "american_odds (home_bet (policy_games ! 1)) = 200"
       "0 \<le> edge (home_bet (policy_games ! 1))"
    and o2: "american_odds (away_bet (policy_games ! 2)) = 450"
    by (simp_all add: home_bet_def away_bet_def policy_games_def)
  have n: "length (filter (\<lambda>r. american_odds r \<ge> 400) (load_edges_data policy_games)) = 1"
    by (simp add: load_edges_data_def home_bet_def away_bet_def policy_games_def)
  from C5_odds_band_policy [OF m0, THEN conjunct2, THEN conjunct1] o0
  have r0: "away_bet (policy_games ! 0) \<notin> set (fst (apply_odds_aware_policy (load_edges_data policy_games)))"
    by blast
  from C5_odds_band_policy [OF m1, THEN conjunct2, THEN conjunct2, THEN conjunct1] o1
  have r1: "home_bet (policy_games ! 1) \<in> set (fst (apply_odds_aware_policy (load_edges_data policy_games)))"
    by simp
  from C5_odds_band_policy [OF m2, THEN conjunct2, THEN conjunct2, THEN conjunct2, THEN conjunct1] o2
  have r2: "away_bet (policy_games ! 2) \<notin> set (fst (apply_odds_aware_policy (load_edges_data policy_games)))"
    by simp
  from C5_odds_band_policy [OF m2, THEN conjunct2, THEN conjunct2, THEN conjunct2, THEN conjunct2,
         THEN conjunct1] n
  have r3: "filtered_longdogs (snd (apply_odds_aware_policy (load_edges_data policy_games))) = 1"
    by simp
  from m0 m1 m2 o0 o1 o2 r0 r1 r2 r3 show ?thesis by blast
qed

section \<open>Properties of the Kelly stake\<close>

lemma round_half_even_mono: "x \<le> y \<Longrightarrow> round_half_even x \<le> round_half_even y"
proof -
  assume xy: "x \<le> y"
  have fl: "\<lfloor>x\<rfloor> \<le> \<lfloor>y\<rfloor>" using xy by (rule floor_mono)
  show ?thesis
  proof (cases "\<lfloor>x\<rfloor> = \<lfloor>y\<rfloor>")
    case True
    then have "x - of_int \<lfloor>x\<rfloor> \<le> y - of_int \<lfloor>y\<rfloor>" using xy by simp
    then show ?thesis using True by (auto simp: round_half_even_def Let_def)
  next
    case False
    then have "\<lfloor>x\<rfloor> + 1 \<le> \<lfloor>y\<rfloor>" using fl by simp
    moreover have "round_half_even x \<le> \<lfloor>x\<rfloor> + 1" by (simp add: round_half_even_def Let_def)
    moreover have "\<lfloor>y\<rfloor> \<le> round_half_even y" by (simp add: round_half_even_def Let_def)
    ultimately show ?thesis by linarith
  qed
qed

lemma round_half_even_nonneg: "0 \<le> x \<Longrightarrow> 0 \<le> round_half_even x"
  using round_half_even_mono [of 0 x] by (simp add: round_half_even_def)

lemma round_half_even_close: "\<bar>of_int (round_half_even x) - x\<bar> \<le> 1 / 2"
proof -
  have "of_int \<lfloor>x\<rfloor> \<le> x" "x < of_int \<lfloor>x\<rfloor> + 1" by linarith+
  then show ?thesis by (auto simp: round_half_even_def Let_def abs_le_iff)
qed

lemma to_int64_id: "0 \<le> n \<Longrightarrow> (of_int n :: rat) < 2 ^ 63 \<Longrightarrow> to_int64 n = n"
  by (simp add: to_int64_def)

lemma decimal_odds_pos:
  "odds \<noteq> 0 \<Longrightarrow> (if odds < 0 then 1 + 100 / \<bar>odds\<bar> else 1 + odds / 100) - 1 > (0::rat)"
  by auto

lemma calculate_kelly_stake_value:
  assumes "odds \<noteq> 0"
  shows "calculate_kelly_stake e odds kf mf =
           Inr (e / ((if odds < 0 then 1 + 100 / \<bar>odds\<bar> else 1 + odds / 100) - 1),
                max (min (e / ((if odds < 0 then 1 + 100 / \<bar>odds\<bar> else 1 + odds / 100) - 1) * kf) mf) 0)"
  using decimal_odds_pos [OF assms] by (simp add: calculate_kelly_stake_def Let_def)

lemma bet_size_dollars_value:
  "calculate_kelly_stake e odds kf mf = Inr (f, a) \<Longrightarrow>
     bet_size_dollars e odds bankroll kf mf = Inr (to_int64 (round_half_even (a * bankroll)))"
  by (simp add: bet_size_dollars_def kelly_row_def)

lemma stake_in_range:
  assumes "0 \<le> x" and "x \<le> c" and "c + 1 / 2 < 2 ^ 63"
  shows "to_int64 (round_half_even x) = round_half_even x"
proof -
  have "of_int (round_half_even x) \<le> x + 1 / 2"
    using round_half_even_close [of x] by linarith
  then have "(of_int (round_half_even x) :: rat) < 2 ^ 63" using assms(2,3) by linarith
  with round_half_even_nonneg [OF assms(1)] show ?thesis by (rule to_int64_id)
qed

text \<open>
  Claim C6, as amended.  For odds other than 0, a non-negative Kelly multiplier, a
  non-negative cap, a non-negative bankroll and a capped stake
  \<open>max_fraction * bankroll\<close> that a 64-bit integer can hold after rounding: the applied
  fraction is the full Kelly fraction \<open>edge / (decimal_odds - 1)\<close> times the multiplier,
  clamped to \<open>[0, max_fraction]\<close>; the stake before rounding lies in
  \<open>[0, max_fraction * bankroll]\<close>; the stake in whole dollars is within half a dollar of
  it, is non-decreasing in the edge, and lies between 0 and
  \<open>max_fraction * bankroll + 1/2\<close>.
\<close>

theorem C6_kelly_stake:
  assumes "odds \<noteq> 0" and "0 \<le> kelly_fraction" and "0 \<le> max_fraction" and "0 \<le> bankroll"
    and "max_fraction * bankroll + 1 / 2 < 2 ^ 63"
    and "e1 \<le> e2"
  shows "\<exists>d a1 a2 s1 s2.
           d = (if odds < 0 then 1 + 100 / \<bar>odds\<bar> else 1 + odds / 100)
         \<and> calculate_kelly_stake e1 odds kelly_fraction max_fraction = Inr (e1 / (d - 1), a1)
         \<and> calculate_kelly_stake e2 odds kelly_fraction max_fraction = Inr (e2 / (d - 1), a2)
         \<and> a1 = max (min (e1 / (d - 1) * kelly_fraction) max_fraction) 0
         \<and> bet_size_dollars e1 odds bankroll kelly_fraction max_fraction = Inr s1
         \<and> bet_size_dollars e2 odds bankroll kelly_fraction max_fraction = Inr s2
         \<and> a1 \<le> a2 \<and> s1 \<le> s2
         \<and> 0 \<le> a1 \<and> a1 \<le> max_fraction
         \<and> 0 \<le> a1 * bankroll \<and> a1 * bankroll \<le> max_fraction * bankroll
         \<and> \<bar>of_int s1 - a1 * bankroll\<bar> \<le> 1 / 2
         \<and> 0 \<le> s1 \<and> of_int s1 \<le> max_fraction * bankroll + 1 / 2"
proof -
  define d where "d = (if odds < 0 then 1 + 100 / \<bar>odds\<bar> else 1 + odds / 100)"
  define a1 where "a1 = max (min (e1 / (d - 1) * kelly_fraction) max_fraction) 0"
  define a2 where "a2 = max (min (e2 / (d - 1) * kelly_fraction) max_fraction) 0"
  define s1 where "s1 = round_half_even (a1 * bankroll)"
  define s2 where "s2 = round_half_even (a2 * bankroll)"
  have dpos: "d - 1 > 0" unfolding d_def using assms(1) by (rule decimal_odds_pos)
  have k1: "calculate_kelly_stake e1 odds kelly_fraction max_fraction = Inr (e1 / (d - 1), a1)"
    unfolding a1_def d_def by (rule calculate_kelly_stake_value [OF assms(1)])
  have k2: "calculate_kelly_stake e2 odds kelly_fraction max_fraction = Inr (e2 / (d - 1), a2)"
    unfolding a2_def d_def by (rule calculate_kelly_stake_value [OF assms(1)])
  have "e1 / (d - 1) \<le> e2 / (d - 1)" using dpos assms(6) by (simp add: divide_right_mono)
  then have "e1 / (d - 1) * kelly_fraction \<le> e2 / (d - 1) * kelly_fraction"
    using assms(2) by (rule mult_right_mono)
  then have m: "a1 \<le> a2" unfolding a1_def a2_def by auto
  have b: "0 \<le> a1" "a1 \<le> max_fraction" unfolding a1_def using assms(3) by auto
  have b2: "0 \<le> a2" "a2 \<le> max_fraction" unfolding a2_def using assms(3) by auto
  have p0: "0 \<le> a1 * bankroll" using b(1) assms(4) by simp
  have p1: "a1 * bankroll \<le> max_fraction * bankroll" using b(2) assms(4) by (rule mult_right_mono)
  have q0: "0 \<le> a2 * bankroll" using b2(1) assms(4) by simp
  have q1: "a2 * bankroll \<le> max_fraction * bankroll" using b2(2) assms(4) by (rule mult_right_mono)
  have p2: "a1 * bankroll \<le> a2 * bankroll" using m assms(4) by (rule mult_right_mono)
  have v1: "bet_size_dollars e1 odds bankroll kelly_fraction max_fraction = Inr s1"
    unfolding s1_def using bet_size_dollars_value [OF k1] stake_in_range [OF p0 p1 assms(5)] by simp
  have v2: "bet_size_dollars e2 odds bankroll kelly_fraction max_fraction = Inr s2"
    unfolding s2_def using bet_size_dollars_value [OF k2] stake_in_range [OF q0 q1 assms(5)] by simp
  have c: "\<bar>of_int s1 - a1 * bankroll\<bar> \<le> 1 / 2" unfolding s1_def by (rule round_half_even_close)
  then have u: "of_int s1 \<le> max_fraction * bankroll + 1 / 2" using p1 by linarith
  have mono: "s1 \<le> s2" unfolding s1_def s2_def using p2 by (rule round_half_even_mono)
  have nn: "0 \<le> s1" unfolding s1_def using p0 by (rule round_half_even_nonneg)
  show ?thesis
    using d_def k1 k2 a1_def v1 v2 m mono b p0 p1 c nn u by blast
qed

text \<open>
  The rounded stake can exceed \<open>max_fraction * bankroll\<close>: with a bankroll of 1006 and a
  cap of one tenth the capped stake of 100.60 is rounded up to 101 dollars.  And with a
  bankroll of \<open>10^20\<close> the capped stake of \<open>10^19\<close> dollars is beyond the 64-bit integers:
  the stake column then holds the least 64-bit integer, a negative number.
\<close>

theorem C6_counterexample:
  "bet_size_dollars (9/10) 200 1006 (1/4) (1/10) = Inr 101 \<and> \<not> (of_int 101 \<le> (1/10) * (1006::rat))
   \<and> bet_size_dollars (9/10) 200 100000000000000000000 (1/4) (1/10) = Inr (- 9223372036854775808)
   \<and> \<not> (0 \<le> (- 9223372036854775808 :: int))"
  by code_simp

theorem C6_kelly_stake_witness:
  "(200::rat) \<noteq> 0 \<and> (0::rat) \<le> 1/4 \<and> (0::rat) \<le> 1/10 \<and> (0::rat) \<le> 1000
   \<and> (1/10 :: rat) * 1000 + 1 / 2 < 2 ^ 63 \<and> (1/15 :: rat) \<le> 9/10
   \<and> bet_size_dollars (1/15) 200 1000 (1/4) (1/10) = Inr 8
   \<and> bet_size_dollars (9/10) 200 1000 (1/4) (1/10) = Inr 100
   \<and> (\<exists>s1 s2. bet_size_dollars (1/15) 200 1000 (1/4) (1/10) = Inr s1
           \<and> bet_size_dollars (9/10) 200 1000 (1/4) (1/10) = Inr s2
           \<and> s1 \<le> s2 \<and> 0 \<le> s1 \<and> of_int s1 \<le> (1/10 :: rat) * 1000 + 1 / 2)"
proof -
  have h: "(200::rat) \<noteq> 0" "(0::rat) \<le> 1/4" "(0::rat) \<le> 1/10" "(0::rat) \<le> 1000"
      "(1/10 :: rat) * 1000 + 1 / 2 < 2 ^ 63" "(1/15 :: rat) \<le> 9/10"
    by simp_all
  have v: "bet_size_dollars (1/15) 200 1000 (1/4) (1/10) = Inr 8"
      "bet_size_dollars (9/10) 200 1000 (1/4) (1/10) = Inr 100"
    by code_simp+
  have "\<exists>s1 s2. bet_size_dollars (1/15) 200 1000 (1/4) (1/10) = Inr s1
           \<and> bet_size_dollars (9/10) 200 1000 (1/4) (1/10) = Inr s2
           \<and> s1 \<le> s2 \<and> 0 \<le> s1 \<and> of_int s1 \<le> (1/10 :: rat) * 1000 + 1 / 2"
    using C6_kelly_stake [OF h] by blast
  with h v show ?thesis by blast
qed

section \<open>Properties of the calibration entry point\<close>

text \<open>
  Claim C8.  When fewer than 50 samples remain after \<open>load_longdogs_data\<close> has filtered
  the odds range and the rows with known outcome, \<open>main\<close> only reports the shortage and
  returns: neither the Platt nor the isotonic mapping is fitted.
\<close>

theorem C8_insufficient_samples:
  assumes "length (load_longdogs_data csv min_odds max_odds) < 50"
  shows "main csv min_odds max_odds test_ratio =
           [WarnInsufficientSamples (length (load_longdogs_data csv min_odds max_odds))]
         \<and> (\<forall>step \<in> set (main csv min_odds max_odds test_ratio). \<not> is_fit step)"
  using assms by (simp add: main_def Let_def)

theorem C8_insufficient_samples_witness:
  "length (load_longdogs_data longdog_csv 400 2000) < 50
   \<and> main longdog_csv 400 2000 (1/5) = [WarnInsufficientSamples 1]"
proof -
  have n: "length (load_longdogs_data longdog_csv 400 2000) = 1"
    by (simp add: load_longdogs_data_def longdog_csv_def)
  then have h: "length (load_longdogs_data longdog_csv 400 2000) < 50" by simp
  from C8_insufficient_samples [OF h, of "1/5"] n show ?thesis by simp
qed

section \<open>Properties of the production prediction\<close>

lemma fillna0_Some: "fillna0 v = Some (case v of None \<Rightarrow> 0 | Some x \<Rightarrow> x)"
  by (simp add: fillna0_def split: option.split)

lemma fillna0_idem: "fillna0 (fillna0 v) = fillna0 v"
  by (simp add: fillna0_def split: option.split)

lemma feature_matrix_no_missing:
  "row \<in> set (feature_matrix games_df feature_cols) \<Longrightarrow> cell \<in> set row \<Longrightarrow> cell \<noteq> None"
  by (auto simp: feature_matrix_def fillna0_Some)

lemma feature_matrix_zero_filled:
  "feature_matrix (zero_filled feature_cols games_df) feature_cols =
     feature_matrix games_df feature_cols"
  by (simp add: feature_matrix_def zero_filled_def fillna0_idem)

lemma num_score_row:
  "num (score_row r p) ''model_prob_home'' = p"
  "num (score_row r p) ''edge_home'' = nan_sub p (num r ''home_implied_prob'')"
  "num (score_row r p) ''edge_away'' = nan_sub (nan_sub (Some 1) p) (num r ''away_implied_prob'')"
  by (simp_all add: score_row_def Let_def set_num_def set_str_def)

lemma score_games_rows:
  assumes "score_games games_df model feature_cols scaler = Inr out"
  shows "\<exists>probs. model_probs model (apply_scaler scaler (feature_matrix games_df feature_cols))
                    = Some probs
               \<and> length probs = length (rows games_df)
               \<and> rows out = map (\<lambda>(r, p). score_row r p) (zip (rows games_df) probs)"
  using assms by (auto simp: score_games_def Let_def split: if_splits option.splits)

text \<open>
  Claim C10.  In \<open>predict_variant_b\<close> the matrix handed to the scaler and the estimator
  is the feature columns with every NaN replaced by 0: it holds no missing cell, and it
  is the matrix of the table whose missing features are exactly zero.  Whenever the
  scoring returns, every input game has a row carrying the estimator's probability for
  its zero-filled features and the two edges computed from it; \<open>predict_variant_b\<close>
  returns those rows whose best edge reaches \<open>min_edge\<close>.
\<close>

theorem C10_missing_features_are_zero_filled:
  "(\<forall>row \<in> set (feature_matrix games_df feature_cols). \<forall>cell \<in> set row. cell \<noteq> None)
   \<and> feature_matrix games_df feature_cols =
       map (\<lambda>r. map (\<lambda>c. Some (case num r c of None \<Rightarrow> 0 | Some x \<Rightarrow> x)) feature_cols)
         (rows games_df)
   \<and> feature_matrix (zero_filled feature_cols games_df) feature_cols =
       feature_matrix games_df feature_cols
   \<and> (\<forall>out. score_games games_df model feature_cols scaler = Inr out \<longrightarrow>
        (\<exists>probs.
           model_probs model (apply_scaler scaler (feature_matrix games_df feature_cols))
             = Some probs
         \<and> length (rows out) = length (rows games_df)
         \<and> (\<forall>i < length (rows games_df).
              num (rows out ! i) ''model_prob_home'' = probs ! i
            \<and> num (rows out ! i) ''edge_home'' =
                nan_sub (probs ! i) (num (rows games_df ! i) ''home_implied_prob'')
            \<and> num (rows out ! i) ''edge_away'' =
                nan_sub (nan_sub (Some 1) (probs ! i))
                  (num (rows games_df ! i) ''away_implied_prob'')))
         \<and> predict_variant_b games_df model feature_cols min_edge scaler =
             Inr (out\<lparr>rows := filter (\<lambda>r. nan_ge (num r ''max_edge'') (Some min_edge))
                                  (rows out)\<rparr>))"
proof (intro conjI allI impI)
  show "\<forall>row \<in> set (feature_matrix games_df feature_cols). \<forall>cell \<in> set row. cell \<noteq> None"
    using feature_matrix_no_missing by blast
  show "feature_matrix games_df feature_cols =
       map (\<lambda>r. map (\<lambda>c. Some (case num r c of None \<Rightarrow> 0 | Some x \<Rightarrow> x)) feature_cols)
         (rows games_df)"
    by (simp add: feature_matrix_def fillna0_Some)
  show "feature_matrix (zero_filled feature_cols games_df) feature_cols =
       feature_matrix games_df feature_cols"
    by (rule feature_matrix_zero_filled)
next
  fix out assume a: "score_games games_df model feature_cols scaler = Inr out"
  from score_games_rows [OF a] obtain probs where
    p: "model_probs model (apply_scaler scaler (feature_matrix games_df feature_cols)) = Some probs"
    and l: "length probs = length (rows games_df)"
    and r: "rows out = map (\<lambda>(r, p). score_row r p) (zip (rows games_df) probs)"
    by blast
  have "\<forall>i < length (rows games_df).
              num (rows out ! i) ''model_prob_home'' = probs ! i
            \<and> num (rows out ! i) ''edge_home'' =
                nan_sub (probs ! i) (num (rows games_df ! i) ''home_implied_prob'')
            \<and> num (rows out ! i) ''edge_away'' =
                nan_sub (nan_sub (Some 1) (probs ! i))
                  (num (rows games_df ! i) ''away_implied_prob'')"
    using l by (simp add: r num_score_row)
  moreover have "length (rows out) = length (rows games_df)" using l by (simp add: r)
  ultimately show "\<exists>probs.
           model_probs model (apply_scaler scaler (feature_matrix games_df feature_cols))
             = Some probs
         \<and> length (rows out) = length (rows games_df)
         \<and> (\<forall>i < length (rows games_df).
              num (rows out ! i) ''model_prob_home'' = probs ! i
            \<and> num (rows out ! i) ''edge_home'' =
                nan_sub (probs ! i) (num (rows games_df ! i) ''home_implied_prob'')
            \<and> num (rows out ! i) ''edge_away'' =
                nan_sub (nan_sub (Some 1) (probs ! i))
                  (num (rows games_df ! i) ''away_implied_prob''))"
    using p by blast
  show "predict_variant_b games_df model feature_cols min_edge scaler =
             Inr (out\<lparr>rows := filter (\<lambda>r. nan_ge (num r ''max_edge'') (Some min_edge))
                                  (rows out)\<rparr>)"
    using a by (simp add: predict_variant_b_def)
qed


theorem C10_missing_features_are_zero_filled_witness:
  "num (rows live_games ! 1) ''ORtg_L5_home'' = None
   \<and> feature_matrix live_games live_features = [[Some (3/5), Some 110], [Some (1/4), Some 0]]
   \<and> None \<notin> set (concat (feature_matrix live_games live_features))
   \<and> (\<exists>out. score_games live_games live_model live_features None = Inr out
          \<and> length (rows out) = 2
          \<and> num (rows out ! 1) ''model_prob_home'' = Some (1/4)
          \<and> num (rows out ! 1) ''edge_home'' = Some 0)"
proof -
  note t = C10_missing_features_are_zero_filled [of live_games live_features live_model None "15/100"]
  have fm: "feature_matrix live_games live_features = [[Some (3/5), Some 110], [Some (1/4), Some 0]]"
    by (simp add: feature_matrix_def live_games_def live_features_def live_row_def fillna0_def)
  have mp: "model_probs live_model (apply_scaler None (feature_matrix live_games live_features))
              = Some [Some (71/100), Some (1/4)]"
    by (simp add: fm model_probs_def apply_scaler_def live_model_def)
  have len: "length (rows live_games) = 2" by (simp add: live_games_def)
  have cols: "set live_features \<subseteq> set (columns live_games)"
    "set [''home_implied_prob'', ''away_implied_prob'', ''home_ml'', ''away_ml'']
       \<subseteq> set (columns live_games)"
    by (simp_all add: live_games_def live_features_def)
  have "\<exists>out. score_games live_games live_model live_features None = Inr out"
    using cols by (simp add: score_games_def Let_def mp len)
  then obtain out where out: "score_games live_games live_model live_features None = Inr out"
    by blast
  have ip: "num (rows live_games ! 1) ''home_implied_prob'' = Some (1/4)"
       "num (rows live_games ! 1) ''ORtg_L5_home'' = None"
    by (simp_all add: live_games_def live_row_def)
  from t [THEN conjunct2, THEN conjunct2, THEN conjunct2, rule_format, OF out, THEN conjunct1]
  obtain probs where
    p: "model_probs live_model (apply_scaler None (feature_matrix live_games live_features))
          = Some probs"
    and l: "length (rows out) = length (rows live_games)"
    and r: "\<forall>i < length (rows live_games).
              num (rows out ! i) ''model_prob_home'' = probs ! i
            \<and> num (rows out ! i) ''edge_home'' =
                nan_sub (probs ! i) (num (rows live_games ! i) ''home_implied_prob'')
            \<and> num (rows out ! i) ''edge_away'' =
                nan_sub (nan_sub (Some 1) (probs ! i))
                  (num (rows live_games ! i) ''away_implied_prob'')"
    by blast
  from p mp have pr: "probs = [Some (71/100), Some (1/4)]" by simp
  from r len have "num (rows out ! 1) ''model_prob_home'' = probs ! 1
      \<and> num (rows out ! 1) ''edge_home'' =
                nan_sub (probs ! 1) (num (rows live_games ! 1) ''home_implied_prob'')"
    by simp
  then have v: "num (rows out ! 1) ''model_prob_home'' = Some (1/4)"
      "num (rows out ! 1) ''edge_home'' = Some 0"
    using ip by (simp_all add: pr nan_sub_def)
  from t [THEN conjunct1] have nn: "None \<notin> set (concat (feature_matrix live_games live_features))"
    by auto
  from nn ip(2) fm out l len v show ?thesis by auto
qed

section \<open>Properties of the rating attachment\<close>

lemma hd_sort_key:
  assumes "xs \<noteq> []"
  shows "hd (sort_key f xs) \<in> set xs \<and> (\<forall>x \<in> set xs. f (hd (sort_key f xs)) \<le> f x)"
proof -
  obtain y ys where s: "sort_key f xs = y # ys"
    using assms by (cases "sort_key f xs") (auto dest: arg_cong [where f = length])
  have "sorted (map f (y # ys))" using sorted_sort_key [of f xs] by (simp add: s)
  then have "\<forall>x \<in> set (sort_key f xs). f y \<le> f x" unfolding s by auto
  then have l: "\<forall>x \<in> set xs. f y \<le> f x" by simp
  have "y \<in> set (sort_key f xs)" unfolding s by simp
  then have m: "y \<in> set xs" by simp
  from l m show ?thesis by (simp add: s)
qed

lemma match_rating_None:
  "match_rating ratings_df team_name game_date = None \<longleftrightarrow>
     eligible ratings_df team_name game_date = []"
  by (auto simp: match_rating_def eligible_def Let_def filter_empty_conv)

lemma match_rating_Some:
  assumes "match_rating ratings_df team_name game_date = Some r"
  shows "r \<in> set (eligible ratings_df team_name game_date)
       \<and> (\<forall>r' \<in> set (eligible ratings_df team_name game_date). rating_date r' \<le> rating_date r)"
proof -
  let ?av = "filter (\<lambda>r. rating_date r \<le> game_date) (filter (\<lambda>r. team r = team_name) ratings_df)"
  have ne: "?av \<noteq> []" and r: "r = hd (sort_key (\<lambda>r. - rating_date r) ?av)"
    using assms by (auto simp: match_rating_def Let_def split: if_splits)
  have e: "eligible ratings_df team_name game_date = ?av"
    by (simp add: eligible_def conj_commute)
  from hd_sort_key [OF ne, of "\<lambda>r. - rating_date r"] show ?thesis
    unfolding e r by simp
qed

lemma attach_team_ratings_result:
  assumes "attach_team_ratings normalize_team_name team_col games_df ratings_df side
             = Inr (result_df, msgs)"
  shows "result_df = map (\<lambda>game. (game, match_rating ratings_df
                                   (normalize_team_name (team_col game)) (date game))) games_df"
  using assms by (auto simp: attach_team_ratings_def Let_def split: if_splits)

text \<open>
  Claim C4.  \<open>attach_team_ratings\<close> returns for every valid side and non-empty game
  table, keeps every game in its order, and pairs game \<open>i\<close> with a snapshot of its
  (normalised) team that is dated on or before the game and has the latest such date;
  when the team has no snapshot on or before the game date the pairing is null, never a
  later snapshot.
\<close>

theorem C4_as_of_rating_attachment:
  "(side \<in> set [''home'', ''away''] \<and> games_df \<noteq> [] \<longrightarrow>
      (\<exists>result_df msgs.
         attach_team_ratings normalize_team_name team_col games_df ratings_df side
           = Inr (result_df, msgs)))
   \<and> (\<forall>result_df msgs.
        attach_team_ratings normalize_team_name team_col games_df ratings_df side
          = Inr (result_df, msgs) \<longrightarrow>
        map fst result_df = games_df
        \<and> (\<forall>i < length games_df.
             (eligible ratings_df (normalize_team_name (team_col (games_df ! i)))
                (date (games_df ! i)) = []
                \<longrightarrow> snd (result_df ! i) = None)
           \<and> (eligible ratings_df (normalize_team_name (team_col (games_df ! i)))
                (date (games_df ! i)) \<noteq> []
                \<longrightarrow> (\<exists>r. snd (result_df ! i) = Some r
                       \<and> r \<in> set ratings_df
                       \<and> team r = normalize_team_name (team_col (games_df ! i))
                       \<and> rating_date r \<le> date (games_df ! i)
                       \<and> (\<forall>r' \<in> set ratings_df.
                            team r' = normalize_team_name (team_col (games_df ! i))
                            \<and> rating_date r' \<le> date (games_df ! i)
                            \<longrightarrow> rating_date r' \<le> rating_date r)))))"
proof (intro conjI allI impI)
  assume "side \<in> set [''home'', ''away''] \<and> games_df \<noteq> []"
  then show "\<exists>result_df msgs.
         attach_team_ratings normalize_team_name team_col games_df ratings_df side
           = Inr (result_df, msgs)"
    by (auto simp: attach_team_ratings_def Let_def)
next
  fix result_df msgs
  assume a: "attach_team_ratings normalize_team_name team_col games_df ratings_df side
          = Inr (result_df, msgs)"
  note r = attach_team_ratings_result [OF a]
  show "map fst result_df = games_df" by (simp add: r comp_def)
  fix i assume i: "i < length games_df"
  let ?t = "normalize_team_name (team_col (games_df ! i))" and ?d = "date (games_df ! i)"
  have s: "snd (result_df ! i) = match_rating ratings_df ?t ?d" using i by (simp add: r)
  show "eligible ratings_df ?t ?d = [] \<Longrightarrow> snd (result_df ! i) = None"
    by (simp add: s match_rating_None)
  assume ne: "eligible ratings_df ?t ?d \<noteq> []"
  then obtain x where x: "match_rating ratings_df ?t ?d = Some x"
    using match_rating_None [of ratings_df ?t ?d] by (cases "match_rating ratings_df ?t ?d") auto
  from match_rating_Some [OF x] show "\<exists>r. snd (result_df ! i) = Some r
                       \<and> r \<in> set ratings_df
                       \<and> team r = ?t
                       \<and> rating_date r \<le> ?d
                       \<and> (\<forall>r' \<in> set ratings_df.
                            team r' = ?t \<and> rating_date r' \<le> ?d
                            \<longrightarrow> rating_date r' \<le> rating_date r)"
    by (auto simp: s x eligible_def)
qed


theorem C4_as_of_rating_attachment_witness:
  "''away'' \<in> set [''home'', ''away''] \<and> [march_game] \<noteq> []
   \<and> eligible dated_ratings (id (away_team ([march_game] ! 0))) (date ([march_game] ! 0)) = []
   \<and> eligible dated_ratings (id (home_team ([march_game] ! 0))) (date ([march_game] ! 0)) \<noteq> []
   \<and> attach_team_ratings id away_team [march_game] dated_ratings ''away''
       = Inr ([(march_game, None)], [MatchReport ''away'' 0 1, WarnUnmatched [''Kansas'']])
   \<and> attach_team_ratings id home_team [march_game] dated_ratings ''home''
       = Inr ([(march_game, Some (dated_ratings ! 1))], [MatchReport ''home'' 1 1])
   \<and> rating_date (dated_ratings ! 1) = 20240220"
proof -
  have h: "''away'' \<in> set [''home'', ''away''] \<and> [march_game] \<noteq> []" by simp
  have e0: "eligible dated_ratings (id (away_team ([march_game] ! 0))) (date ([march_game] ! 0)) = []"
    by (simp add: eligible_def dated_ratings_def march_game_def)
  have e1: "eligible dated_ratings (id (home_team ([march_game] ! 0))) (date ([march_game] ! 0)) \<noteq> []"
    by (simp add: eligible_def dated_ratings_def march_game_def)
  have a: "attach_team_ratings id away_team [march_game] dated_ratings ''away''
       = Inr ([(march_game, None)], [MatchReport ''away'' 0 1, WarnUnmatched [''Kansas'']])"
    by (simp add: attach_team_ratings_def match_rating_def Let_def dated_ratings_def march_game_def)
  have b: "attach_team_ratings id home_team [march_game] dated_ratings ''home''
       = Inr ([(march_game, Some (dated_ratings ! 1))], [MatchReport ''home'' 1 1])"
    by (simp add: attach_team_ratings_def match_rating_def Let_def dated_ratings_def march_game_def)
  have d: "rating_date (dated_ratings ! 1) = 20240220" by (simp add: dated_ratings_def)
  from C4_as_of_rating_attachment [of "''away''" "[march_game]" id away_team dated_ratings,
        THEN conjunct2, rule_format, OF a, THEN conjunct2, rule_format, of 0] e0
  have "snd ([(march_game, None :: rating option)] ! 0) = None" by simp
  with h e0 e1 a b d show ?thesis by blast
qed

lemma load_season_ratings_messages:
  assumes "load_season_ratings season mode file = Inr (df, msgs)"
  shows "(mode = ''dated_snapshots'' \<and> msgs =
            (if nunique (map rating_date df) = 1 then [WarnSingleRatingDate] else [])
            @ [InfoDatedSnapshots (nunique (map rating_date df))] @ describe_ratings df)
       \<or> (mode = ''preseason_only'' \<and> msgs =
            [InfoPreseasonOnly (preseason_dates season)] @ describe_ratings df)
       \<or> (mode = ''season_end'' \<and> msgs =
            [WarnSeasonEnd (season_start_dates season)] @ describe_ratings df)"
  using assms
  by (auto simp: load_season_ratings_def Let_def split: if_splits option.splits)

section \<open>Properties of the merged dataset and its check\<close>















section \<open>Properties of the walk-forward evaluation\<close>

lemma wf_loop_stop: "\<not> s < maxd \<Longrightarrow> wf_loop df T maxd s n = Some []"
  by (subst wf_loop.simps) simp

lemma wf_loop_break:
  assumes "s < maxd" and "ce = min (s + T) maxd"
    and "snd (split_train_test_by_date df s ce) = []"
  shows "wf_loop df T maxd s n = Some []"
  by (subst wf_loop.simps) (simp add: Let_def assms(1) assms(2) [symmetric] assms(3))

lemma wf_loop_diverge:
  assumes "s < maxd" and "ce = min (s + T) maxd"
    and "snd (split_train_test_by_date df s ce) \<noteq> []" and "ce \<le> s"
  shows "wf_loop df T maxd s n = None"
  by (subst wf_loop.simps) (simp add: Let_def assms(1) assms(2) [symmetric] assms(3,4))

lemma wf_loop_skip:
  assumes "s < maxd" and "ce = min (s + T) maxd"
    and "snd (split_train_test_by_date df s ce) \<noteq> []" and "\<not> ce \<le> s"
    and "length (fst (split_train_test_by_date df s ce)) < 50"
  shows "wf_loop df T maxd s n = wf_loop df T maxd ce (n + 1)"
  by (subst wf_loop.simps) (simp add: Let_def assms(1) assms(2) [symmetric] assms(3,4,5))

lemma wf_loop_fit:
  assumes "s < maxd" and "ce = min (s + T) maxd"
    and "snd (split_train_test_by_date df s ce) \<noteq> []" and "\<not> ce \<le> s"
    and "\<not> length (fst (split_train_test_by_date df s ce)) < 50"
  shows "wf_loop df T maxd s n =
           map_option
             (\<lambda>rest. \<lparr>period = n, train_end = s, test_start = s, test_end = ce,
                       train_rows = fst (split_train_test_by_date df s ce),
                       test_rows = snd (split_train_test_by_date df s ce)\<rparr> # rest)
             (wf_loop df T maxd ce (n + 1))"
  by (subst wf_loop.simps) (simp add: Let_def assms(1) assms(2) [symmetric] assms(3,4,5))

lemma wf_loop_total:
  "0 < test_window_days \<Longrightarrow>
     \<exists>ps. wf_loop df test_window_days max_date current_test_start period_num = Some ps"
proof (induction df test_window_days max_date current_test_start period_num rule: wf_loop.induct)
  case (1 df T maxd s n)
  show ?case
  proof (cases "s < maxd")
    case False
    then show ?thesis by (simp add: wf_loop_stop)
  next
    case True
    define ce where "ce = min (s + T) maxd"
    have gt: "\<not> ce \<le> s" using True "1.prems" by (simp add: ce_def)
    show ?thesis
    proof (cases "snd (split_train_test_by_date df s ce) = []")
      case e: True
      then show ?thesis using wf_loop_break [OF True ce_def e] by simp
    next
      case ne: False
      show ?thesis
      proof (cases "length (fst (split_train_test_by_date df s ce)) < 50")
        case sk: True
        from "1.IH"(1) [OF True ce_def refl refl ne gt sk "1.prems"]
        show ?thesis by (simp add: wf_loop_skip [OF True ce_def ne gt sk])
      next
        case ft: False
        from "1.IH"(2) [OF True ce_def refl refl ne gt ft "1.prems"]
        show ?thesis by (auto simp add: wf_loop_fit [OF True ce_def ne gt ft])
      qed
    qed
  qed
qed

lemma ordered_from_weaken: "ordered_from hi ps \<Longrightarrow> lo \<le> hi \<Longrightarrow> ordered_from lo ps"
  by (cases ps) auto

lemma wf_loop_periods:
  "wf_loop df test_window_days max_date current_test_start period_num = Some ps \<Longrightarrow>
     ordered_from current_test_start ps \<and> (\<forall>p \<in> set ps. period_ok df p)"
proof (induction df test_window_days max_date current_test_start period_num arbitrary: ps
        rule: wf_loop.induct)
  case (1 df T maxd s n)
  show ?case
  proof (cases "s < maxd")
    case False
    then show ?thesis using "1.prems" by (simp add: wf_loop_stop)
  next
    case True
    define ce where "ce = min (s + T) maxd"
    show ?thesis
    proof (cases "snd (split_train_test_by_date df s ce) = []")
      case e: True
      then show ?thesis using "1.prems" wf_loop_break [OF True ce_def e] by simp
    next
      case ne: False
      show ?thesis
      proof (cases "ce \<le> s")
        case le: True
        then show ?thesis using "1.prems" wf_loop_diverge [OF True ce_def ne le] by simp
      next
        case gt: False
        show ?thesis
        proof (cases "length (fst (split_train_test_by_date df s ce)) < 50")
          case sk: True
          have r: "wf_loop df T maxd ce (n + 1) = Some ps"
            using "1.prems" wf_loop_skip [OF True ce_def ne gt sk] by simp
          note h = "1.IH"(1) [OF True ce_def refl refl ne gt sk r]
          have "ordered_from s ps"
            using h [THEN conjunct1] by (rule ordered_from_weaken) (use gt in simp)
          then show ?thesis using h [THEN conjunct2] by (rule conjI)
        next
          case ft: False
          define p where "p = \<lparr>period = n, train_end = s, test_start = s, test_end = ce,
                          train_rows = fst (split_train_test_by_date df s ce),
                          test_rows = snd (split_train_test_by_date df s ce)\<rparr>"
          obtain rest where r: "wf_loop df T maxd ce (n + 1) = Some rest" and ps: "ps = p # rest"
            using "1.prems" wf_loop_fit [OF True ce_def ne gt ft] unfolding p_def
            by (cases "wf_loop df T maxd ce (n + 1)") auto
          note h = "1.IH"(2) [OF True ce_def refl refl ne gt ft r]
          have ok: "period_ok df p"
            using ft ne by (simp add: period_ok_def p_def split_train_test_by_date_def)
          have sel: "test_start p = s" "test_end p = ce" by (simp_all add: p_def)
          have "ordered_from s ps" using h [THEN conjunct1] gt by (simp add: ps sel)
          moreover have "\<forall>q \<in> set ps. period_ok df q" using h [THEN conjunct2] ok by (simp add: ps)
          ultimately show ?thesis by (rule conjI)
        qed
      qed
    qed
  qed
qed

lemma ordered_from_lower:
  "ordered_from lo ps \<Longrightarrow> p \<in> set ps \<Longrightarrow> lo \<le> test_start p \<and> test_start p < test_end p"
proof (induction ps arbitrary: lo)
  case Nil
  then show ?case by simp
next
  case (Cons q qs)
  show ?case
  proof (cases "p = q")
    case True
    then show ?thesis using Cons.prems by simp
  next
    case False
    then have "p \<in> set qs" using Cons.prems by simp
    moreover have "ordered_from (test_end q) qs" using Cons.prems by simp
    ultimately have "test_end q \<le> test_start p \<and> test_start p < test_end p"
      by (rule Cons.IH [rotated])
    then show ?thesis using Cons.prems by simp
  qed
qed

lemma ordered_from_pairs:
  "ordered_from lo ps \<Longrightarrow> i < j \<Longrightarrow> j < length ps \<Longrightarrow>
     test_start (ps ! i) < test_end (ps ! i) \<and> test_end (ps ! i) \<le> test_start (ps ! j)"
proof (induction ps arbitrary: lo i j)
  case Nil
  then show ?case by simp
next
  case (Cons q qs)
  obtain j' where j: "j = Suc j'" using Cons.prems(2) by (cases j) auto
  have o: "ordered_from (test_end q) qs" and q: "test_start q < test_end q"
    using Cons.prems(1) by simp_all
  show ?case
  proof (cases i)
    case 0
    have "qs ! j' \<in> set qs" using Cons.prems(3) j by simp
    from ordered_from_lower [OF o this] q show ?thesis by (simp add: 0 j)
  next
    case (Suc i')
    from Cons.IH [OF o, of i' j'] Cons.prems(2,3) show ?thesis by (simp add: Suc j)
  qed
qed


lemma length_filter_mono:
  "(\<And>x. P x \<Longrightarrow> Q x) \<Longrightarrow> length (filter P xs) \<le> length (filter Q xs)"
  by (induction xs) auto

lemma train_grows:
  assumes "s \<le> s'"
  shows "length (fst (split_train_test_by_date df s e))
           \<le> length (fst (split_train_test_by_date df s' e'))"
  unfolding split_train_test_by_date_def fst_conv
  by (rule length_filter_mono) (use assms in simp)

lemma wf_loop_adjacent:
  "wf_loop df test_window_days max_date current_test_start period_num = Some ps \<Longrightarrow>
     50 \<le> length (filter (\<lambda>r. date r < current_test_start) df) \<Longrightarrow>
     adjacent_from current_test_start ps"
proof (induction df test_window_days max_date current_test_start period_num arbitrary: ps
        rule: wf_loop.induct)
  case (1 df T maxd s n)
  note prems = "1.prems"
  show ?case
  proof (cases "s < maxd")
    case False
    then show ?thesis using prems(1) by (simp add: wf_loop_stop)
  next
    case True
    define ce where "ce = min (s + T) maxd"
    have tr: "\<not> length (fst (split_train_test_by_date df s ce)) < 50"
      using prems(2) by (simp add: split_train_test_by_date_def)
    show ?thesis
    proof (cases "snd (split_train_test_by_date df s ce) = []")
      case e: True
      then show ?thesis using prems(1) wf_loop_break [OF True ce_def e] by simp
    next
      case ne: False
      show ?thesis
      proof (cases "ce \<le> s")
        case le: True
        then show ?thesis using prems(1) wf_loop_diverge [OF True ce_def ne le] by simp
      next
        case gt: False
        define p where "p = \<lparr>period = n, train_end = s, test_start = s, test_end = ce,
                        train_rows = fst (split_train_test_by_date df s ce),
                        test_rows = snd (split_train_test_by_date df s ce)\<rparr>"
        obtain rest where r: "wf_loop df T maxd ce (n + 1) = Some rest" and ps: "ps = p # rest"
          using prems(1) wf_loop_fit [OF True ce_def ne gt tr] unfolding p_def
          by (cases "wf_loop df T maxd ce (n + 1)") auto
        have "length (fst (split_train_test_by_date df s ce))
                \<le> length (fst (split_train_test_by_date df ce ce))"
          by (rule train_grows) (use gt in simp)
        then have big: "50 \<le> length (filter (\<lambda>r. date r < ce) df)"
          using tr by (simp add: split_train_test_by_date_def)
        from "1.IH"(2) [OF True ce_def refl refl ne gt tr r big]
        show ?thesis by (simp add: ps p_def)
      qed
    qed
  qed
qed

lemma adjacent_from_nth:
  "adjacent_from s ps \<Longrightarrow> Suc i < length ps \<Longrightarrow> test_start (ps ! Suc i) = test_end (ps ! i)"
proof (induction ps arbitrary: s i)
  case Nil
  then show ?case by simp
next
  case (Cons p ps)
  have a: "adjacent_from (test_end p) ps" using Cons.prems(1) by simp
  show ?case
  proof (cases i)
    case 0
    then show ?thesis using a Cons.prems(2) by (cases ps) auto
  next
    case (Suc k)
    from Cons.IH [OF a, of k] Cons.prems(2) show ?thesis by (simp add: Suc)
  qed
qed

lemma wf_loop_consecutive:
  "wf_loop df test_window_days max_date current_test_start period_num = Some ps \<Longrightarrow>
     Suc i < length ps \<Longrightarrow> test_start (ps ! Suc i) = test_end (ps ! i)"
proof (induction df test_window_days max_date current_test_start period_num arbitrary: ps i
        rule: wf_loop.induct)
  case (1 df T maxd s n)
  note prems = "1.prems"
  show ?case
  proof (cases "s < maxd")
    case False
    then show ?thesis using prems by (simp add: wf_loop_stop)
  next
    case True
    define ce where "ce = min (s + T) maxd"
    show ?thesis
    proof (cases "snd (split_train_test_by_date df s ce) = []")
      case e: True
      then show ?thesis using prems wf_loop_break [OF True ce_def e] by simp
    next
      case ne: False
      show ?thesis
      proof (cases "ce \<le> s")
        case le: True
        then show ?thesis using prems(1) wf_loop_diverge [OF True ce_def ne le] by simp
      next
        case gt: False
        show ?thesis
        proof (cases "length (fst (split_train_test_by_date df s ce)) < 50")
          case sk: True
          have r: "wf_loop df T maxd ce (n + 1) = Some ps"
            using prems(1) wf_loop_skip [OF True ce_def ne gt sk] by simp
          from "1.IH"(1) [OF True ce_def refl refl ne gt sk r prems(2)] show ?thesis .
        next
          case ft: False
          define p where "p = \<lparr>period = n, train_end = s, test_start = s, test_end = ce,
                          train_rows = fst (split_train_test_by_date df s ce),
                          test_rows = snd (split_train_test_by_date df s ce)\<rparr>"
          have f: "wf_loop df T maxd s n = Some ps" by (rule prems(1))
          have "50 \<le> length (filter (\<lambda>r. date r < s) df)"
            using ft by (simp add: split_train_test_by_date_def)
          from wf_loop_adjacent [OF f this] prems(2) show ?thesis by (rule adjacent_from_nth)
        qed
      qed
    qed
  qed
qed

lemma walkforward_backtest_cases:
  assumes "walkforward_backtest df initial_train_months test_window_days = Some periods"
  shows "periods = [] \<or> (\<exists>max_date start n.
           wf_loop df test_window_days max_date start n = Some periods)"
  using assms by (auto simp: walkforward_backtest_def Let_def split: if_splits)

text \<open>
  Claim C2.  \<open>walkforward_backtest\<close> returns for every positive test window, and
  whenever it returns, the table handed to \<open>train_models\<close> for a period is exactly the
  rows dated strictly before the period's start: no row dated on or after the start of
  the test period is in it.
\<close>

theorem C2_fit_only_on_earlier_rows:
  "(0 < test_window_days \<longrightarrow>
      (\<exists>periods. walkforward_backtest df initial_train_months test_window_days = Some periods))
   \<and> (\<forall>periods. walkforward_backtest df initial_train_months test_window_days = Some periods
        \<longrightarrow> (\<forall>p \<in> set periods.
               train_rows p = filter (\<lambda>r. date r < test_start p) df
             \<and> (\<forall>r \<in> set (train_rows p). date r < test_start p)
             \<and> 50 \<le> length (train_rows p)))"
proof (intro conjI allI impI ballI)
  assume "0 < test_window_days"
  then show "\<exists>periods. walkforward_backtest df initial_train_months test_window_days = Some periods"
    by (simp add: walkforward_backtest_def Let_def wf_loop_total)
next
  fix periods p
  assume a: "walkforward_backtest df initial_train_months test_window_days = Some periods"
    and p: "p \<in> set periods"
  from walkforward_backtest_cases [OF a] p obtain max_date start n where
    "wf_loop df test_window_days max_date start n = Some periods" by auto
  from wf_loop_periods [OF this] p have ok: "period_ok df p" by blast
  then show t: "train_rows p = filter (\<lambda>r. date r < test_start p) df"
    unfolding period_ok_def by blast
  show "50 \<le> length (train_rows p)" using ok unfolding period_ok_def by blast
  fix r assume "r \<in> set (train_rows p)"
  then show "date r < test_start p" by (simp add: t)
qed

text \<open>
  Claim C3, as amended.  The test set of a period is the rows with
  \<open>test_start \<le> date \<le> test_end\<close>, closed on both sides, and every window has
  \<open>test_start < test_end\<close>; each fitted period starts where the previous one ends; a
  row dated strictly inside the window of a period is in the test set of no other
  period.
\<close>

theorem C3_test_windows:
  "\<forall>periods. walkforward_backtest df initial_train_months test_window_days = Some periods \<longrightarrow>
     (\<forall>p \<in> set periods.
        test_rows p = filter (\<lambda>r. date r \<ge> test_start p \<and> date r \<le> test_end p) df
      \<and> test_start p < test_end p)
   \<and> (\<forall>i. Suc i < length periods \<longrightarrow>
          test_start (periods ! Suc i) = test_end (periods ! i))
   \<and> (\<forall>i j r. i < length periods \<and> j < length periods \<and> i \<noteq> j
          \<and> r \<in> set (test_rows (periods ! i))
          \<and> test_start (periods ! i) < date r \<and> date r < test_end (periods ! i)
          \<longrightarrow> r \<notin> set (test_rows (periods ! j)))"
proof (intro allI impI)
  fix periods
  assume a: "walkforward_backtest df initial_train_months test_window_days = Some periods"
  show "(\<forall>p \<in> set periods.
        test_rows p = filter (\<lambda>r. date r \<ge> test_start p \<and> date r \<le> test_end p) df
      \<and> test_start p < test_end p)
   \<and> (\<forall>i. Suc i < length periods \<longrightarrow>
          test_start (periods ! Suc i) = test_end (periods ! i))
   \<and> (\<forall>i j r. i < length periods \<and> j < length periods \<and> i \<noteq> j
          \<and> r \<in> set (test_rows (periods ! i))
          \<and> test_start (periods ! i) < date r \<and> date r < test_end (periods ! i)
          \<longrightarrow> r \<notin> set (test_rows (periods ! j)))"
  proof (cases "periods = []")
    case True
    then show ?thesis by simp
  next
    case False
    with walkforward_backtest_cases [OF a] obtain max_date start n where
      w: "wf_loop df test_window_days max_date start n = Some periods" by auto
    note ok = wf_loop_periods [OF w, THEN conjunct2] and ord = wf_loop_periods [OF w, THEN conjunct1]
    have rows: "\<And>k. k < length periods \<Longrightarrow>
        test_rows (periods ! k)
          = filter (\<lambda>r. date r \<ge> test_start (periods ! k) \<and> date r \<le> test_end (periods ! k)) df"
      using ok by (simp add: period_ok_def)
    have lt: "\<And>k. k < length periods \<Longrightarrow> test_start (periods ! k) < test_end (periods ! k)"
      using ordered_from_lower [OF ord] by simp
    have sep: "\<And>i j. i < j \<Longrightarrow> j < length periods \<Longrightarrow>
        test_end (periods ! i) \<le> test_start (periods ! j)"
      using ordered_from_pairs [OF ord] by blast
    have c1: "\<forall>p \<in> set periods.
        test_rows p = filter (\<lambda>r. date r \<ge> test_start p \<and> date r \<le> test_end p) df
      \<and> test_start p < test_end p"
      using ok ordered_from_lower [OF ord] by (simp add: period_ok_def)
    have c2: "\<forall>i. Suc i < length periods \<longrightarrow>
          test_start (periods ! Suc i) = test_end (periods ! i)"
      using wf_loop_consecutive [OF w] by blast
    have c3: "\<forall>i j r. i < length periods \<and> j < length periods \<and> i \<noteq> j
          \<and> r \<in> set (test_rows (periods ! i))
          \<and> test_start (periods ! i) < date r \<and> date r < test_end (periods ! i)
          \<longrightarrow> r \<notin> set (test_rows (periods ! j))"
    proof (intro allI impI notI)
      fix i j r
      assume h: "i < length periods \<and> j < length periods \<and> i \<noteq> j
          \<and> r \<in> set (test_rows (periods ! i))
          \<and> test_start (periods ! i) < date r \<and> date r < test_end (periods ! i)"
        and m: "r \<in> set (test_rows (periods ! j))"
      from h have i: "i < length periods" and j: "j < length periods" and ne: "i \<noteq> j"
        and lo: "test_start (periods ! i) < date r" and hi: "date r < test_end (periods ! i)"
        by simp_all
      from m rows [OF j] have rj: "test_start (periods ! j) \<le> date r" "date r \<le> test_end (periods ! j)"
        by simp_all
      show False
      proof (cases "i < j")
        case True
        from sep [OF True j] rj(1) hi show False by simp
      next
        case False
        then have "j < i" using ne by simp
        from sep [OF this i] rj(2) lo show False by simp
      qed
    qed
    from c1 c2 c3 show ?thesis by (intro conjI)
  qed
qed


lemma early_games_facts:
  "length early_games = 50" "early_games \<noteq> []" "\<And>r. r \<in> set early_games \<Longrightarrow> date r = 0"
  by (auto simp: early_games_def)

lemma early_games_filter:
  "0 < s \<Longrightarrow> filter (\<lambda>r. date r < s) early_games = early_games"
  "0 < s \<Longrightarrow> filter (\<lambda>r. s \<le> date r \<and> date r \<le> e) early_games = []"
  by (auto simp: early_games_facts(3) filter_empty_conv intro: filter_True)

lemma wf_games_dates: "Min (date ` set wf_games) = 0" "Max (date ` set wf_games) = 120"
proof -
  have "date ` set early_games = {0}"
  proof
    show "date ` set early_games \<subseteq> {0}" using early_games_facts(3) by auto
    have "hd early_games \<in> set early_games" using early_games_facts(2) by simp
    then have "date (hd early_games) \<in> date ` set early_games" by (rule imageI)
    moreover have "date (hd early_games) = 0"
      using early_games_facts(3) \<open>hd early_games \<in> set early_games\<close> by blast
    ultimately show "{0} \<subseteq> date ` set early_games" by simp
  qed
  then have s: "date ` set wf_games = {0, 90, 100, 120}"
    by (simp add: wf_games_def g90_def g100_def g120_def insert_commute)
  show "Min (date ` set wf_games) = 0" "Max (date ` set wf_games) = 120"
    unfolding s by simp_all
qed

lemma wf_run: "walkforward_backtest wf_games 2 30 = Some wf_expected"
proof -
  have sp1: "split_train_test_by_date wf_games 60 90 = (early_games, [g90])"
    by (simp add: split_train_test_by_date_def wf_games_def early_games_filter
          g90_def g100_def g120_def)
  have sp2: "split_train_test_by_date wf_games 90 120 = (early_games, [g90, g100, g120])"
    by (simp add: split_train_test_by_date_def wf_games_def early_games_filter
          g90_def g100_def g120_def)
  have l3: "wf_loop wf_games 30 120 120 3 = Some []" by (simp add: wf_loop_stop)
  have l2: "wf_loop wf_games 30 120 90 2 = Some [wf_expected ! 1]"
    using wf_loop_fit [of 90 120 120 30 wf_games 2] l3
    by (simp add: sp2 early_games_facts wf_expected_def)
  have l1: "wf_loop wf_games 30 120 60 1 = Some wf_expected"
    using wf_loop_fit [of 60 120 90 30 wf_games 1] l2
    by (simp add: sp1 early_games_facts wf_expected_def)
  have "wf_games \<noteq> []" by (simp add: wf_games_def)
  then show ?thesis by (simp add: walkforward_backtest_def wf_games_dates l1)
qed

text \<open>
  The game of day 90 lies on the boundary of the windows [60, 90] and [90, 120]: it is
  in both test sets, and it is not among the rows with \<open>60 \<le> date < 90\<close>.
\<close>

theorem C3_counterexample:
  "walkforward_backtest wf_games 2 30 = Some wf_expected
   \<and> date g90 = 90 \<and> test_end (wf_expected ! 0) = 90
   \<and> test_start (wf_expected ! 1) = 90
   \<and> g90 \<in> set (test_rows (wf_expected ! 0))
   \<and> g90 \<in> set (test_rows (wf_expected ! 1))
   \<and> g90 \<notin> set (filter (\<lambda>r. test_start (wf_expected ! 0) \<le> date r
                              \<and> date r < test_end (wf_expected ! 0)) wf_games)"
proof -
  have "date g90 = 90 \<and> test_end (wf_expected ! 0) = 90
   \<and> test_start (wf_expected ! 1) = 90
   \<and> g90 \<in> set (test_rows (wf_expected ! 0))
   \<and> g90 \<in> set (test_rows (wf_expected ! 1))
   \<and> g90 \<notin> set (filter (\<lambda>r. test_start (wf_expected ! 0) \<le> date r
                              \<and> date r < test_end (wf_expected ! 0)) wf_games)"
    by (simp add: wf_expected_def g90_def)
  with wf_run show ?thesis by (rule conjI)
qed

theorem C2_fit_only_on_earlier_rows_witness:
  "(0::int) < 30
   \<and> walkforward_backtest wf_games 2 30 = Some wf_expected
   \<and> train_rows (wf_expected ! 1) = filter (\<lambda>r. date r < test_start (wf_expected ! 1)) wf_games
   \<and> test_start (wf_expected ! 1) = 90 \<and> date g90 = 90
   \<and> g90 \<notin> set (train_rows (wf_expected ! 1))"
proof -
  note t = C2_fit_only_on_earlier_rows [of 30 wf_games 2, THEN conjunct2, rule_format, OF wf_run]
  have m: "wf_expected ! 1 \<in> set wf_expected" by (simp add: wf_expected_def)
  note b = t [OF m, THEN conjunct1]
  have s: "test_start (wf_expected ! 1) = 90" by (simp add: wf_expected_def)
  have d: "date g90 = 90" by (simp add: g90_def)
  have n: "g90 \<notin> set (train_rows (wf_expected ! 1))"
  proof
    assume "g90 \<in> set (train_rows (wf_expected ! 1))"
    with t [OF m, THEN conjunct2, THEN conjunct1] have "date g90 < test_start (wf_expected ! 1)"
      by (rule bspec)
    then show False unfolding s d by simp
  qed
  have z: "(0::int) < 30" by simp
  show ?thesis by (rule conjI [OF z conjI [OF wf_run conjI [OF b conjI [OF s conjI [OF d n]]]]])
qed

theorem C3_test_windows_witness:
  "walkforward_backtest wf_games 2 30 = Some wf_expected
   \<and> (1 < length wf_expected \<and> 0 < length wf_expected \<and> (1::nat) \<noteq> 0
          \<and> g100 \<in> set (test_rows (wf_expected ! 1))
          \<and> test_start (wf_expected ! 1) < date g100
          \<and> date g100 < test_end (wf_expected ! 1))
   \<and> g100 \<notin> set (test_rows (wf_expected ! 0))
   \<and> test_start (wf_expected ! Suc 0) = test_end (wf_expected ! 0)"
proof -
  have h: "1 < length wf_expected \<and> 0 < length wf_expected \<and> (1::nat) \<noteq> 0
          \<and> g100 \<in> set (test_rows (wf_expected ! 1))
          \<and> test_start (wf_expected ! 1) < date g100
          \<and> date g100 < test_end (wf_expected ! 1)"
    by (simp add: wf_expected_def g100_def)
  have l: "Suc 0 < length wf_expected" by (simp add: wf_expected_def)
  note t = C3_test_windows [of wf_games 2 30, rule_format, OF wf_run]
  note a = t [THEN conjunct2, THEN conjunct2, rule_format, OF h]
  note b = t [THEN conjunct2, THEN conjunct1, rule_format, OF l]
  show ?thesis by (rule conjI [OF wf_run conjI [OF h conjI [OF a b]]])
qed

section \<open>Properties of the rolling statistics\<close>

lemma finite_values_simps [simp]:
  "finite_values [] = []"
  "finite_values (Finite x # xs) = x # finite_values xs"
  "finite_values (NaN # xs) = finite_values xs"
  "finite_values (PosInf # xs) = finite_values xs"
  "finite_values (NegInf # xs) = finite_values xs"
  by (simp_all add: finite_values_def)


lemma length_rolling_mean [simp]: "length (rolling_mean w m xs) = length xs"
  by (simp add: rolling_mean_def)

lemma length_shift1 [simp]: "length (shift1 xs) = length xs"
  by (simp add: shift1_def)

lemma length_shifted_rolling [simp]: "length (shifted_rolling w metric gs) = length gs"
  by (simp add: shifted_rolling_def)

lemma take_Suc_shift1:
  "i < length xs \<Longrightarrow> take (Suc i) (shift1 xs) = NaN # take i xs"
  by (auto simp: shift1_def take_butlast)

lemma shifted_rolling_nth:
  assumes "1 \<le> w" and "i < length gs"
  shows "shifted_rolling w metric gs ! i
           = mean (finite_values (map metric (drop (i - nat w) (take i gs))))"
proof -
  let ?xs = "map metric gs"
  have w: "0 < nat w" using assms(1) by simp
  have t: "take (Suc i) (shift1 ?xs) = NaN # take i ?xs"
    using assms(2) by (simp add: take_Suc_shift1)
  have d: "finite_values (drop (Suc i - nat w) (NaN # take i ?xs))
             = finite_values (drop (i - nat w) (take i ?xs))"
  proof (cases "i < nat w")
    case True
    then show ?thesis by simp
  next
    case False
    then have "Suc i - nat w = Suc (i - nat w)" using w by simp
    then show ?thesis by simp
  qed
  have o: "finite_values (drop (Suc i - nat w) (take (Suc i) (shift1 ?xs)))
             = finite_values (map metric (drop (i - nat w) (take i gs)))"
    unfolding t d by (simp add: take_map drop_map)
  have "shifted_rolling w metric gs ! i =
          (let obs = finite_values (drop (Suc i - nat w) (take (Suc i) (shift1 ?xs)))
           in if obs \<noteq> [] \<and> length obs \<ge> 1
              then Some (sum_list obs / of_nat (length obs)) else None)"
    using assms(2) by (simp add: shifted_rolling_def rolling_mean_def)
  also have "\<dots> = mean (finite_values (map metric (drop (i - nat w) (take i gs))))"
    unfolding o by (auto simp: mean_def Let_def Suc_le_eq)
  finally show ?thesis .
qed





lemma merge_left_hd:
  assumes "left \<noteq> []"
  shows "merge_left key left right \<noteq> [] \<and> fst (hd (merge_left key left right)) = hd left"
proof -
  obtain l ls where l: "left = l # ls" using assms by (cases left) auto
  let ?c = "case filter (\<lambda>r. fst r = key l) right of
              [] \<Rightarrow> [(l, None)] | ms \<Rightarrow> map (\<lambda>r. (l, Some (snd r))) ms"
  have c: "?c \<noteq> [] \<and> fst (hd ?c) = l"
    by (cases "filter (\<lambda>r. fst r = key l) right") simp_all
  have "merge_left key left right = ?c @ merge_left key ls right"
    by (simp add: merge_left_def l)
  then show ?thesis using c by (simp add: l)
qed




lemma compute_unfold:
  assumes "compute_team_rolling_stats team_games lookback_windows = Inr stats"
  shows "(\<forall>w \<in> set lookback_windows. 1 \<le> w)
       \<and> stats =
          (let sorted_games = sort_key date team_games;
               with_home = merge_left (\<lambda>l. date (fst l)) (base_rows sorted_games lookback_windows)
                             (split_columns True sorted_games);
               with_road = merge_left (\<lambda>l. date (fst (fst l))) with_home
                             (split_columns False sorted_games)
           in map (\<lambda>(k, ((g, r), h), a).
                      \<lparr>game = g, rolling = r,
                       ORtg_at_home_L5 = (case h of None \<Rightarrow> None | Some v \<Rightarrow> fst v),
                       DRtg_at_home_L5 = (case h of None \<Rightarrow> None | Some v \<Rightarrow> snd v),
                       ORtg_on_road_L5 = (case a of None \<Rightarrow> None | Some v \<Rightarrow> fst v),
                       DRtg_on_road_L5 = (case a of None \<Rightarrow> None | Some v \<Rightarrow> snd v),
                       games_played = k\<rparr>)
                 (zip [0 ..< length with_road] with_road))"
  using assms
  by (auto simp: compute_team_rolling_stats_def base_rows_def Let_def not_less
           split: if_splits)

lemma compute_returns:
  assumes "\<forall>w \<in> set lookback_windows. 1 \<le> w"
  shows "\<exists>stats. compute_team_rolling_stats team_games lookback_windows = Inr stats"
  using assms by (auto simp: compute_team_rolling_stats_def Let_def not_less)



lemma shifted_rolling_first:
  assumes "1 \<le> w" and "gs \<noteq> []"
  shows "shifted_rolling w metric gs ! 0 = None"
  using shifted_rolling_nth [OF assms(1), of 0 gs metric] assms(2) by (simp add: mean_def)

lemma compute_first_row:
  assumes r: "compute_team_rolling_stats team_games lookback_windows = Inr stats"
    and ne: "team_games \<noteq> []"
  shows "stats \<noteq> []"
    and "game (hd stats) = hd (sort_key date team_games)"
    and "rolling (hd stats) c =
           (if column_window c \<in> set lookback_windows
            then Some (shifted_rolling (column_window c) (column_metric c)
                         (sort_key date team_games) ! 0)
            else None)"
proof -
  let ?s = "sort_key date team_games"
  let ?b = "base_rows ?s lookback_windows"
  define wh where "wh = merge_left (\<lambda>l. date (fst l)) ?b (split_columns True ?s)"
  define wr where "wr = merge_left (\<lambda>l. date (fst (fst l))) wh (split_columns False ?s)"
  have sne: "?s \<noteq> []" using ne by (metis length_sort length_0_conv)
  have bne: "?b \<noteq> []" using ne by (simp add: base_rows_def)
  have hb: "hd ?b = (hd ?s, (\<lambda>c. if column_window c \<in> set lookback_windows
                      then Some (shifted_rolling (column_window c) (column_metric c) ?s ! 0)
                      else None))"
    using sne ne by (simp add: base_rows_def hd_map hd_conv_nth upt_conv_Cons cong: if_cong)
  note h1 = merge_left_hd [OF bne, of "\<lambda>l. date (fst l)" "split_columns True ?s", folded wh_def]
  note h2 = merge_left_hd [OF h1 [THEN conjunct1], of "\<lambda>l. date (fst (fst l))"
              "split_columns False ?s", folded wr_def]
  have wrne: "wr \<noteq> []" using h2 by simp
  have f: "fst (fst (hd wr)) = hd ?b" using h1 h2 by simp
  have stats: "stats = map (\<lambda>(k, ((g, r), h), a).
                      \<lparr>game = g, rolling = r,
                       ORtg_at_home_L5 = (case h of None \<Rightarrow> None | Some v \<Rightarrow> fst v),
                       DRtg_at_home_L5 = (case h of None \<Rightarrow> None | Some v \<Rightarrow> snd v),
                       ORtg_on_road_L5 = (case a of None \<Rightarrow> None | Some v \<Rightarrow> fst v),
                       DRtg_on_road_L5 = (case a of None \<Rightarrow> None | Some v \<Rightarrow> snd v),
                       games_played = k\<rparr>)
                 (zip [0 ..< length wr] wr)"
    using compute_unfold [OF r] by (simp add: Let_def wh_def wr_def)
  obtain x xs where wr: "wr = x # xs" using wrne by (cases wr) auto
  have u: "[0 ..< length wr] = 0 # [1 ..< length wr]"
    by (subst upt_rec) (simp add: wr)
  have z: "zip [0 ..< length wr] wr = (0, x) # zip [1 ..< length wr] xs"
    by (subst u) (simp add: wr)
  show "stats \<noteq> []" by (simp add: stats z)
  have hx: "fst (fst x) = hd ?b" using f by (simp add: wr)
  show "game (hd stats) = hd ?s" using hx by (simp add: stats z case_prod_beta hb)
  show "rolling (hd stats) c =
           (if column_window c \<in> set lookback_windows
            then Some (shifted_rolling (column_window c) (column_metric c) ?s ! 0)
            else None)"
    using hx by (simp add: stats z case_prod_beta hb)
qed

text \<open>
  Claim C7.  Whenever \<open>compute_team_rolling_stats\<close> returns for a team with at least
  one game, its first row is the team's earliest game and every requested rolling column
  (offensive rating, defensive rating, pace, margin of victory, win percentage, any
  window) is NaN there, not the number 0.
\<close>

theorem C7_first_observation_is_missing:
  assumes "compute_team_rolling_stats team_games lookback_windows = Inr stats"
    and "team_games \<noteq> []"
    and "column_window c \<in> set lookback_windows"
  shows "stats \<noteq> [] \<and> game (hd stats) = hd (sort_key date team_games)
       \<and> rolling (hd stats) c = Some None \<and> rolling (hd stats) c \<noteq> Some (Some 0)"
proof -
  have w: "1 \<le> column_window c" using compute_unfold [OF assms(1)] assms(3) by blast
  have sne: "sort_key date team_games \<noteq> []" using assms(2) by (metis length_sort length_0_conv)
  have "rolling (hd stats) c = Some None"
    using compute_first_row(3) [OF assms(1,2), of c] assms(3)
      shifted_rolling_first [OF w sne, of "column_metric c"] by simp
  then show ?thesis using compute_first_row(1,2) [OF assms(1,2)] by simp
qed


lemma season_games_facts:
  "distinct (map date season_games)"
  "season_games \<noteq> []"
  "length season_games = 4"
  "sort_key date season_games = [played 1 70 63 True, played 2 63 70 False, played 3 77 70 True, played 5 84 70 False]"
  by (simp_all add: season_games_def played_def)






theorem C7_first_observation_is_missing_witness:
  "season_games \<noteq> [] \<and> column_window (MoV_L 5) \<in> set [5, 1]
   \<and> (\<exists>stats. compute_team_rolling_stats season_games [5, 1] = Inr stats
         \<and> date (game (hd stats)) = 1
         \<and> rolling (hd stats) (MoV_L 5) = Some None)"
proof -
  have w: "\<forall>w \<in> set [5, 1 :: int]. 1 \<le> w" by simp
  from compute_returns [OF w]
  obtain stats where st: "compute_team_rolling_stats season_games [5, 1] = Inr stats" by blast
  have c: "column_window (MoV_L 5) \<in> set [5, 1]" by simp
  note t = C7_first_observation_is_missing [OF st season_games_facts(2) c]
  have d: "date (game (hd stats)) = 1"
    using t [THEN conjunct2, THEN conjunct1] by (simp add: season_games_facts(4) played_def)
  have r: "rolling (hd stats) (MoV_L 5) = Some None"
    using t [THEN conjunct2, THEN conjunct2, THEN conjunct1] .
  from st d r have "\<exists>stats. compute_team_rolling_stats season_games [5, 1] = Inr stats
         \<and> date (game (hd stats)) = 1
         \<and> rolling (hd stats) (MoV_L 5) = Some None" by blast
  then show ?thesis using season_games_facts(2) c by simp
qed

end
